theory Spec2Isabelle
  imports Complex_Main "HOL-Library.AList"
begin

section \<open>Data model\<close>

text \<open>
  Chunk identifiers are the string keys of the JavaScript objects. Objects used as sets
  (\<open>{id: true}\<close>) are lists of distinct keys in insertion order, the order in which
  \<open>for ... in\<close> and \<open>Object.keys\<close> visit them. Objects that are only looked up
  (\<open>chunkCache\<close>, \<open>chunkDistances\<close>) are maps.
\<close>

type_synonym chunkid = string
type_synonym vec3 = "int \<times> int \<times> int"

record chunk =
  chunkID :: chunkid
  chunk_position :: vec3
  chunk_voxels :: "nat list"

definition obj_put :: "'k \<Rightarrow> 'k list \<Rightarrow> 'k list" where
  "obj_put k ks = (if k \<in> set ks then ks else ks @ [k])"

definition obj_delete :: "'k \<Rightarrow> 'k list \<Rightarrow> 'k list" where
  "obj_delete k ks = removeAll k ks"

text \<open>
  A typed-array read \<open>a[i]\<close>: \<open>None\<close> is JavaScript's \<open>undefined\<close>, the value of a
  read past the end.
\<close>

definition js_index :: "'a list \<Rightarrow> nat \<Rightarrow> 'a option" where
  "js_index a i = (if i < length a then Some (a ! i) else None)"

section \<open>The mesher (horizontal-merge.js)\<close>

datatype face = Front | Back | Top | Bottom | Left | Right

datatype error = TypeError

text \<open>
  One pooled \<open>Float32Array\<close> with its live offset. A store past the end of a typed
  array is dropped, which is what list update does; the offset is incremented all the same.
\<close>

record buffer =
  offset :: nat
  data :: "real list"

record texmesh =
  position :: buffer
  texcoord :: buffer
  normal :: buffer

text \<open>
  A texture value is \<open>textures[faceIndex(face)]\<close>; \<open>None\<close> is \<open>undefined\<close>. The keys
  of \<open>out\<close> are kept in the order in which they were added; JavaScript enumerates keys that
  are array indices in ascending order instead, which changes only the order in which
  \<open>processChunks\<close> lists the textures of a mesh.
\<close>

type_synonym tex = "nat option"
type_synonym meshout = "(tex \<times> texmesh) list"

record run =
  textureValue :: tex
  start :: vec3
  end_pos :: vec3

type_synonym adjacent = "(face \<times> run option) list"

text \<open>
  The module's globals set by \<open>config\<close>, and the collaborators that are not part of the
  mesher's file: the Coordinator's two functions, the pool's \<open>malloc\<close> (which hands out
  a recycled array with whatever it held before) and the rounding of a \<open>Float32Array\<close>
  store.
\<close>

record 'p config =
  chunkSize :: nat
  voxelsToTextures :: "nat \<rightharpoonup> nat list"
  textureOffsets :: "nat \<rightharpoonup> real \<times> real \<times> real"
  coordinatesToChunkID :: "int \<Rightarrow> int \<Rightarrow> int \<Rightarrow> chunkid"
  coordinatesToVoxelIndex :: "int \<Rightarrow> int \<Rightarrow> int \<Rightarrow> nat"
  malloc :: "'p \<Rightarrow> real list \<times> 'p"
  fround :: "real \<Rightarrow> real"

text \<open>The module's mutable state: the global \<open>out\<close> and the pool.\<close>

record 'p mstate =
  out :: meshout
  pool :: 'p

definition push :: "(real \<Rightarrow> real) \<Rightarrow> buffer \<Rightarrow> real \<Rightarrow> buffer" where
  "push rnd b v = b\<lparr>data := (data b)[offset b := rnd v], offset := offset b + 1\<rparr>"

definition pushAll :: "(real \<Rightarrow> real) \<Rightarrow> real list \<Rightarrow> buffer \<Rightarrow> buffer" where
  "pushAll rnd vs b = foldl (push rnd) b vs"

definition newBuffer :: "'p config \<Rightarrow> 'p \<Rightarrow> buffer \<times> 'p" where
  "newBuffer cfg p = (let (a, p') = malloc cfg p in (\<lparr>offset = 0, data = a\<rparr>, p'))"

definition allocate :: "'p config \<Rightarrow> tex \<Rightarrow> 'p mstate \<Rightarrow> 'p mstate" where
  "allocate cfg t s =
     (if t \<in> fst ` set (out s) then s
      else
        let (pb, p1) = newBuffer cfg (pool s);
            (tb, p2) = newBuffer cfg p1;
            (nb, p3) = newBuffer cfg p2
        in \<lparr>out = out s @ [(t, \<lparr>position = pb, texcoord = tb, normal = nb\<rparr>)], pool = p3\<rparr>)"

definition facePoints :: "face \<Rightarrow> real \<Rightarrow> real \<Rightarrow> real \<Rightarrow> real \<Rightarrow> real \<Rightarrow> real \<Rightarrow> real list" where
  "facePoints f startX startY startZ endX endY endZ =
     (case f of
        Back \<Rightarrow>
          [startX, startY, startZ + 1,  endX + 1, startY, startZ + 1,
           endX + 1, endY + 1, startZ + 1,  startX, startY, startZ + 1,
           endX + 1, endY + 1, startZ + 1,  startX, endY + 1, startZ + 1]
      | Front \<Rightarrow>
          [endX + 1, startY, startZ,  startX, startY, startZ,
           startX, endY + 1, startZ,  endX + 1, startY, startZ,
           startX, endY + 1, startZ,  endX + 1, endY + 1, startZ]
      | Left \<Rightarrow>
          [startX, startY, startZ,  startX, startY, endZ + 1,
           startX, endY + 1, endZ + 1,  startX, startY, startZ,
           startX, endY + 1, endZ + 1,  startX, startY + 1, startZ]
      | Right \<Rightarrow>
          [startX + 1, startY, endZ + 1,  startX + 1, startY, startZ,
           startX + 1, startY + 1, startZ,  startX + 1, startY, endZ + 1,
           startX + 1, startY + 1, startZ,  startX + 1, endY + 1, endZ + 1]
      | Top \<Rightarrow>
          [startX, startY + 1, endZ + 1,  endX + 1, startY + 1, endZ + 1,
           endX + 1, startY + 1, startZ,  startX, startY + 1, endZ + 1,
           endX + 1, startY + 1, startZ,  startX, startY + 1, startZ]
      | Bottom \<Rightarrow>
          [startX, startY, startZ,  endX + 1, startY, startZ,
           endX + 1, startY, endZ + 1,  startX, startY, startZ,
           endX + 1, startY, endZ + 1,  startX, startY, endZ + 1])"

definition faceTexcoords ::
  "face \<Rightarrow> real \<times> real \<times> real \<Rightarrow> real \<Rightarrow> real \<Rightarrow> real \<Rightarrow> real \<Rightarrow> real \<Rightarrow> real \<Rightarrow> real list" where
  "faceTexcoords f offs startX startY startZ endX endY endZ =
     (let (textureBottom, textureTop, textureRight) = offs in
      case f of
        Back \<Rightarrow>
          [0, textureBottom,  1, textureBottom,  1, textureTop,
           0, textureTop,  1, textureTop,  0, textureRight]
      | Front \<Rightarrow>
          [0, 0,  endX - startX + 1, 0,  endX - startX + 1, endY - startY + 1,
           0, 0,  endX - startX + 1, endY - startY + 1,  0, endY - startY + 1]
      | Left \<Rightarrow>
          [0, 0,  endZ - startZ + 1, 0,  endZ - startZ + 1, endY - startY + 1,
           0, 0,  endZ - startZ + 1, endY - startY + 1,  0, endY - startY + 1]
      | Right \<Rightarrow>
          [0, 0,  endZ - startZ + 1, 0,  endZ - startZ + 1, endY - startY + 1,
           0, 0,  endZ - startZ + 1, endY - startY + 1,  0, endY - startY + 1]
      | Top \<Rightarrow>
          [0, 0,  endX - startX + 1, 0,  endX - startX + 1, endZ - startZ + 1,
           0, 0,  endX - startX + 1, endZ - startZ + 1,  0, endZ - startZ + 1]
      | Bottom \<Rightarrow>
          [0, 0,  endX - startX + 1, 0,  endX - startX + 1, endZ - startZ + 1,
           0, 0,  endX - startX + 1, endZ - startZ + 1,  0, endZ - startZ + 1])"

definition faceNormals :: "face \<Rightarrow> real list" where
  "faceNormals f =
     concat (replicate 6
       (case f of
          Back \<Rightarrow> [0, 0, 1]
        | Front \<Rightarrow> [0, 0, -1]
        | Left \<Rightarrow> [-1, 0, 0]
        | Right \<Rightarrow> [1, 0, 0]
        | Top \<Rightarrow> [0, 1, 0]
        | Bottom \<Rightarrow> [0, -1, 0]))"

text \<open>
  \<open>addFace\<close>: the entry of \<open>out\<close> for the run's texture is allocated when missing, then
  \<open>textureOffsets[textureValue][0]\<close> throws a TypeError when the table has no such
  texture (an \<open>undefined\<close> texture value is not a key of the table), and otherwise the
  18 + 12 + 18 floats of the face are stored. The chunk's position and the cells are integer
  vectors; the floats are real numbers, rounded by \<open>fround\<close> when stored. After an
  exception the model keeps no state: the next \<open>mesh\<close> starts from any state.
\<close>

definition addFace :: "'p config \<Rightarrow> vec3 \<Rightarrow> face \<Rightarrow> run \<Rightarrow> 'p mstate \<Rightarrow> error + 'p mstate" where
  "addFace cfg basePosition f info s =
     (let (bx, by, bz) = basePosition;
          (sx, sy, sz) = start info;
          (ex, ey, ez) = end_pos info;
          startX = real_of_int (bx + sx);
          startY = real_of_int (by + sy);
          startZ = real_of_int (bz + sz);
          endX = real_of_int (bx + ex);
          endY = real_of_int (by + ey);
          endZ = real_of_int (bz + ez);
          s1 = allocate cfg (textureValue info) s
      in
      case map_of (out s1) (textureValue info) of
        None \<Rightarrow> Inl TypeError
      | Some m \<Rightarrow>
          (case (case textureValue info of None \<Rightarrow> None | Some t \<Rightarrow> textureOffsets cfg t) of
             None \<Rightarrow> Inl TypeError
           | Some offs \<Rightarrow>
               Inr (s1\<lparr>out := AList.update (textureValue info)
                      \<lparr>position = pushAll (fround cfg)
                                   (facePoints f startX startY startZ endX endY endZ) (position m),
                       texcoord = pushAll (fround cfg)
                                   (faceTexcoords f offs startX startY startZ endX endY endZ) (texcoord m),
                       normal = pushAll (fround cfg) (faceNormals f) (normal m)\<rparr>
                      (out s1)\<rparr>)))"

fun addFaces :: "'p config \<Rightarrow> vec3 \<Rightarrow> adjacent \<Rightarrow> 'p mstate \<Rightarrow> error + 'p mstate" where
  "addFaces cfg basePosition [] s = Inr s"
| "addFaces cfg basePosition ((f, None) # current) s = addFaces cfg basePosition current s"
| "addFaces cfg basePosition ((f, Some info) # current) s =
     (case addFace cfg basePosition f info s of
        Inl e \<Rightarrow> Inl e
      | Inr s' \<Rightarrow> addFaces cfg basePosition current s')"

definition resetFaces :: "adjacent \<Rightarrow> adjacent" where
  "resetFaces current = map (\<lambda>(f, r). (f, None)) current"

text \<open>
  \<open>shouldSkipFace\<close> is called with the face's texture value as the current value and
  with a voxel read as the opposing value; either can be \<open>undefined\<close>, for which
  \<open>== 0\<close>, \<open>< 100\<close>, \<open>> 99\<close> and \<open>> 0\<close> are all false.
\<close>

definition js_eq :: "nat option \<Rightarrow> nat \<Rightarrow> bool" where
  "js_eq v n = (case v of None \<Rightarrow> False | Some m \<Rightarrow> m = n)"

definition js_lt :: "nat option \<Rightarrow> nat \<Rightarrow> bool" where
  "js_lt v n = (case v of None \<Rightarrow> False | Some m \<Rightarrow> m < n)"

definition js_gt :: "nat option \<Rightarrow> nat \<Rightarrow> bool" where
  "js_gt v n = (case v of None \<Rightarrow> False | Some m \<Rightarrow> m > n)"

definition shouldSkipFace :: "nat option \<Rightarrow> nat option \<Rightarrow> bool" where
  "shouldSkipFace currentVoxelValue opposingVoxelValue =
     (if js_eq opposingVoxelValue 0 then False
      else if js_lt currentVoxelValue 100 then
        (if js_gt opposingVoxelValue 99 then False else True)
      else if js_gt opposingVoxelValue 0 then True
      else False)"

definition opposing :: "face \<Rightarrow> int \<Rightarrow> int \<Rightarrow> int \<Rightarrow> vec3" where
  "opposing f x y z =
     (case f of
        Front \<Rightarrow> (x, y, z - 1)
      | Back \<Rightarrow> (x, y, z + 1)
      | Left \<Rightarrow> (x - 1, y, z)
      | Right \<Rightarrow> (x + 1, y, z)
      | Top \<Rightarrow> (x, y + 1, z)
      | Bottom \<Rightarrow> (x, y - 1, z))"

definition outsideChunk :: "nat \<Rightarrow> vec3 \<Rightarrow> bool" where
  "outsideChunk cs p =
     (let (x, y, z) = p in
      x < 0 \<or> x \<ge> int cs \<or> y < 0 \<or> y \<ge> int cs \<or> z < 0 \<or> z \<ge> int cs)"

definition isFaceBlocked ::
  "'p config \<Rightarrow> (chunkid \<rightharpoonup> chunk) \<Rightarrow> vec3 \<Rightarrow> nat list \<Rightarrow> nat \<Rightarrow> face \<Rightarrow>
     int \<Rightarrow> int \<Rightarrow> int \<Rightarrow> nat option \<Rightarrow> bool" where
  "isFaceBlocked cfg chunkCache basePosition vox cs f x y z currentVoxelValue =
     (let (x1, y1, z1) = opposing f x y z in
      if outsideChunk cs (x1, y1, z1) then
        (let (bx, by, bz) = basePosition;
             x2 = x1 + bx; y2 = y1 + by; z2 = z1 + bz;
             opposingChunkID = coordinatesToChunkID cfg x2 y2 z2;
             opposingIndex = coordinatesToVoxelIndex cfg x2 y2 z2
         in case chunkCache opposingChunkID of
              Some opposingChunk \<Rightarrow>
                shouldSkipFace currentVoxelValue (js_index (chunk_voxels opposingChunk) opposingIndex)
            | None \<Rightarrow> False)
      else
        shouldSkipFace currentVoxelValue
          (js_index vox (coordinatesToVoxelIndex cfg x1 y1 z1)))"

definition faceIndex :: "face \<Rightarrow> nat" where
  "faceIndex f =
     (case f of Top \<Rightarrow> 0 | Front \<Rightarrow> 1 | Left \<Rightarrow> 2 | Back \<Rightarrow> 3 | Right \<Rightarrow> 4 | Bottom \<Rightarrow> 5)"


text \<open>
  The body of \<open>for (var face in adjacent)\<close> for one face: the same in both sweeps (the
  second tests \<open>isBlocked > 0\<close>, which for a boolean is \<open>isBlocked\<close>).
  \<open>voxelsToTextures[v].textures\<close> throws a TypeError when the table has no material \<open>v\<close>.
\<close>

definition faceStep ::
  "'p config \<Rightarrow> (chunkid \<rightharpoonup> chunk) \<Rightarrow> vec3 \<Rightarrow> nat list \<Rightarrow> nat \<Rightarrow> int \<Rightarrow> int \<Rightarrow> int \<Rightarrow>
     face \<times> run option \<Rightarrow> 'p mstate \<Rightarrow> error + ((face \<times> run option) \<times> 'p mstate)" where
  "faceStep cfg chunkCache basePosition vox v x y z fr s =
     (let (f, cur) = fr in
      case voxelsToTextures cfg v of
        None \<Rightarrow> Inl TypeError
      | Some textures \<Rightarrow>
          (let tv = js_index textures (faceIndex f);
               isBlocked = isFaceBlocked cfg chunkCache basePosition vox (chunkSize cfg) f x y z tv;
               fresh = \<lparr>textureValue = tv, start = (x, y, z), end_pos = (x, y, z)\<rparr>
           in
           if isBlocked then
             (case cur of
                None \<Rightarrow> Inr ((f, None), s)
              | Some r \<Rightarrow>
                  (case addFace cfg basePosition f r s of
                     Inl e \<Rightarrow> Inl e
                   | Inr s' \<Rightarrow> Inr ((f, None), s')))
           else
             (case cur of
                None \<Rightarrow> Inr ((f, Some fresh), s)
              | Some r \<Rightarrow>
                  if textureValue r = tv then Inr ((f, Some (r\<lparr>end_pos := (x, y, z)\<rparr>)), s)
                  else
                    (case addFace cfg basePosition f r s of
                       Inl e \<Rightarrow> Inl e
                     | Inr s' \<Rightarrow> Inr ((f, Some fresh), s')))))"

fun facesLoop ::
  "'p config \<Rightarrow> (chunkid \<rightharpoonup> chunk) \<Rightarrow> vec3 \<Rightarrow> nat list \<Rightarrow> nat \<Rightarrow> int \<Rightarrow> int \<Rightarrow> int \<Rightarrow>
     adjacent \<Rightarrow> 'p mstate \<Rightarrow> error + (adjacent \<times> 'p mstate)" where
  "facesLoop cfg chunkCache basePosition vox v x y z [] s = Inr ([], s)"
| "facesLoop cfg chunkCache basePosition vox v x y z (fr # rest) s =
     (case faceStep cfg chunkCache basePosition vox v x y z fr s of
        Inl e \<Rightarrow> Inl e
      | Inr (fr', s') \<Rightarrow>
          (case facesLoop cfg chunkCache basePosition vox v x y z rest s' of
             Inl e \<Rightarrow> Inl e
           | Inr (rest', s'') \<Rightarrow> Inr (fr' # rest', s'')))"

text \<open>A loop whose body can throw: the first exception ends it.\<close>

fun foldE :: "('a \<Rightarrow> 's \<Rightarrow> error + 's) \<Rightarrow> 'a list \<Rightarrow> 's \<Rightarrow> error + 's" where
  "foldE body [] s = Inr s"
| "foldE body (x # xs) s =
     (case body x s of Inl e \<Rightarrow> Inl e | Inr s' \<Rightarrow> foldE body xs s')"

text \<open>
  The body of both inner loops for the cell at local \<open>(x, y, z)\<close>, read at \<open>voxels[i]\<close>:
  an empty cell flushes the runs; a material that is not in the table (or a read past the
  end of the grid) falls back to material 3.
\<close>

definition cellStep ::
  "'p config \<Rightarrow> (chunkid \<rightharpoonup> chunk) \<Rightarrow> vec3 \<Rightarrow> nat list \<Rightarrow> int \<Rightarrow> int \<Rightarrow> int \<Rightarrow> nat \<Rightarrow>
     adjacent \<times> 'p mstate \<Rightarrow> error + (adjacent \<times> 'p mstate)" where
  "cellStep cfg chunkCache basePosition vox x y z i as =
     (let (adj, s) = as;
          voxelTextureValue = js_index vox i
      in
      if js_eq voxelTextureValue 0 then
        (case addFaces cfg basePosition adj s of
           Inl e \<Rightarrow> Inl e
         | Inr s' \<Rightarrow> Inr (resetFaces adj, s'))
      else
        (let v = (case voxelTextureValue of
                    Some n \<Rightarrow> if n \<in> dom (voxelsToTextures cfg) then n else 3
                  | None \<Rightarrow> 3)
         in facesLoop cfg chunkCache basePosition vox v x y z adj s))"

text \<open>
  The body of the first \<open>z\<close> loop: one row swept along \<open>x\<close>, then the flush. The source
  computes \<open>part = y * chunkSize\<close> in the \<open>y\<close> loop and
  \<open>index = part + (z * chunkSize * chunkSize)\<close> in the \<open>z\<close> loop, and reads
  \<open>voxels[index + x]\<close> at the cell \<open>(x, y, z)\<close>.
\<close>

definition sweepRowX ::
  "'p config \<Rightarrow> (chunkid \<rightharpoonup> chunk) \<Rightarrow> vec3 \<Rightarrow> nat list \<Rightarrow> nat \<Rightarrow> nat \<Rightarrow>
     adjacent \<times> 'p mstate \<Rightarrow> error + (adjacent \<times> 'p mstate)" where
  "sweepRowX cfg chunkCache basePosition vox y z as =
     (let (adj, s) = as;
          part = y * chunkSize cfg;
          index = part + (z * chunkSize cfg * chunkSize cfg)
      in
      case foldE (\<lambda>x. cellStep cfg chunkCache basePosition vox (int x) (int y) (int z) (index + x))
             [0..<chunkSize cfg] (resetFaces adj, s) of
        Inl e \<Rightarrow> Inl e
      | Inr (adj', s') \<Rightarrow>
          (case addFaces cfg basePosition adj' s' of
             Inl e \<Rightarrow> Inl e
           | Inr s'' \<Rightarrow> Inr (resetFaces adj', s'')))"

text \<open>
  The body of the second \<open>x\<close> loop: one column swept along \<open>z\<close>, then the flush. Here
  \<open>index = part + x\<close>, and the cell \<open>(x, y, z)\<close> is read at
  \<open>voxels[index + (z * chunkSize * chunkSize)]\<close>.
\<close>

definition sweepRowZ ::
  "'p config \<Rightarrow> (chunkid \<rightharpoonup> chunk) \<Rightarrow> vec3 \<Rightarrow> nat list \<Rightarrow> nat \<Rightarrow> nat \<Rightarrow>
     adjacent \<times> 'p mstate \<Rightarrow> error + (adjacent \<times> 'p mstate)" where
  "sweepRowZ cfg chunkCache basePosition vox y x as =
     (let (adj, s) = as;
          part = y * chunkSize cfg;
          index = part + x
      in
      case foldE (\<lambda>z. cellStep cfg chunkCache basePosition vox (int x) (int y) (int z)
                         (index + (z * chunkSize cfg * chunkSize cfg)))
             [0..<chunkSize cfg] (resetFaces adj, s) of
        Inl e \<Rightarrow> Inl e
      | Inr (adj', s') \<Rightarrow>
          (case addFaces cfg basePosition adj' s' of
             Inl e \<Rightarrow> Inl e
           | Inr s'' \<Rightarrow> Inr (resetFaces adj', s'')))"

definition adjacentX :: adjacent where
  "adjacentX = [(Front, None), (Back, None), (Top, None), (Bottom, None)]"

definition adjacentZ :: adjacent where
  "adjacentZ = [(Left, None), (Right, None)]"

definition slice ::
  "'p config \<Rightarrow> (chunkid \<rightharpoonup> chunk) \<Rightarrow> vec3 \<Rightarrow> nat list \<Rightarrow> nat \<Rightarrow> 'p mstate \<Rightarrow> error + 'p mstate" where
  "slice cfg chunkCache basePosition vox y s =
     (case foldE (sweepRowX cfg chunkCache basePosition vox y) [0..<chunkSize cfg] (adjacentX, s) of
        Inl e \<Rightarrow> Inl e
      | Inr (a1, s1) \<Rightarrow>
          (case foldE (sweepRowZ cfg chunkCache basePosition vox y) [0..<chunkSize cfg] (adjacentZ, s1) of
             Inl e \<Rightarrow> Inl e
           | Inr (a2, s2) \<Rightarrow> Inr s2))"

definition calculate ::
  "'p config \<Rightarrow> (chunkid \<rightharpoonup> chunk) \<Rightarrow> vec3 \<Rightarrow> nat list \<Rightarrow> 'p mstate \<Rightarrow> error + 'p mstate" where
  "calculate cfg chunkCache basePosition vox s =
     foldE (slice cfg chunkCache basePosition vox) [0..<chunkSize cfg] s"

text \<open>
  \<open>mesh\<close>: \<open>None\<close> for the grid is an absent argument, \<open>None\<close> for the result is
  \<open>null\<close>. The result shares the global \<open>out\<close>, which the call leaves in the state.
\<close>

definition mesh ::
  "'p config \<Rightarrow> (chunkid \<rightharpoonup> chunk) \<Rightarrow> vec3 \<Rightarrow> nat list option \<Rightarrow> 'p mstate \<Rightarrow>
     error + (meshout option \<times> 'p mstate)" where
  "mesh cfg chunkCache pos voxs s =
     (case voxs of
        None \<Rightarrow> Inr (None, s)
      | Some vox \<Rightarrow>
          if length vox = 0 then Inr (None, s)
          else
            (case calculate cfg chunkCache pos vox (s\<lparr>out := []\<rparr>) of
               Inl e \<Rightarrow> Inl e
             | Inr s' \<Rightarrow> Inr (Some (out s'), s')))"


section \<open>The client worker (client-worker.js)\<close>

text \<open>
  What \<open>processChunks\<close> posts for one texture of a mesh: the buffers with their offsets;
  \<open>offsetBytes\<close> is \<open>offset * 4\<close> and \<open>tuples\<close> is \<open>offset / 3\<close>.
\<close>

record transferBuffer =
  t_buffer :: "real list"
  t_offset :: nat
  t_offsetBytes :: nat

record transferTexture =
  t_position :: transferBuffer
  t_tuples :: real
  t_texcoord :: transferBuffer
  t_normal :: transferBuffer

datatype message =
    ChunkVoxels chunk
  | ChunkMesh chunkid "(tex \<times> transferTexture) list"
  | MeshesToShow "chunkid \<rightharpoonup> int"
  | NearbyChunks "chunkid list"

text \<open>
  The worker object together with the module's \<open>chunkCache\<close>, the fetches handed to
  \<open>MaxConcurrent\<close> and the messages posted to the client.
\<close>

record worker =
  nearbyChunks :: "chunkid list"
  chunkDistances :: "chunkid \<rightharpoonup> int"
  sentClientChunks :: "chunkid list"
  sentClientMeshes :: "chunkid list"
  missingChunks :: "chunkid list"
  requestedChunks :: "chunkid list"
  clientMissingChunks :: "chunkid list"
  clientMissingMeshes :: "chunkid list"
  lastWorldChunks :: "vec3 \<times> vec3"
  chunkCache :: "chunkid \<rightharpoonup> chunk"
  fetchQueue :: "(chunkid \<times> vec3) list"
  posted :: "message list"

definition chunkOutOfBounds :: "worker \<Rightarrow> vec3 \<Rightarrow> bool" where
  "chunkOutOfBounds self pos =
     (let (p0, p1, p2) = pos;
          ((l0, l1, l2), (l3, l4, l5)) = lastWorldChunks self
      in
      if p0 < l0 \<or> p1 < l1 \<or> p2 < l2 \<or> p0 > l3 \<or> p1 > l4 \<or> p2 > l5 then True else False)"

text \<open>
  The \<open>onload\<close> handler of the request made by \<open>requestClosure(chunkId, position)\<close>;
  \<open>None\<close> is a falsy \<open>req.response\<close>.
\<close>

definition onload :: "chunkid \<Rightarrow> vec3 \<Rightarrow> nat list option \<Rightarrow> worker \<Rightarrow> worker" where
  "onload chunkId pos response self =
     (let self1 = self\<lparr>requestedChunks := obj_delete chunkId (requestedChunks self)\<rparr> in
      case response of
        None \<Rightarrow> self1
      | Some bytes \<Rightarrow>
          if chunkId \<notin> dom (chunkDistances self1) then self1
          else self1\<lparr>chunkCache := (chunkCache self1)
                 (chunkId \<mapsto> \<lparr>chunkID = chunkId, chunk_position = pos, chunk_voxels = bytes\<rparr>)\<rparr>)"

text \<open>The local variables of \<open>regionChange\<close> that its callback fills.\<close>

record region =
  new_chunkDistances :: "chunkid \<rightharpoonup> int"
  new_sentClientChunks :: "chunkid list"
  new_sentClientMeshes :: "chunkid list"
  new_missingChunks :: "chunkid list"
  new_clientMissingChunks :: "chunkid list"
  new_clientMissingMeshes :: "chunkid list"
  new_nearbyChunks :: "chunkid list"

definition emptyRegion :: region where
  "emptyRegion =
     \<lparr>new_chunkDistances = Map.empty, new_sentClientChunks = [], new_sentClientMeshes = [],
      new_missingChunks = [], new_clientMissingChunks = [], new_clientMissingMeshes = [],
      new_nearbyChunks = []\<rparr>"

text \<open>The callback that \<open>regionChange\<close> passes to \<open>nearbyChunkIDsEach\<close>.\<close>

definition visit :: "chunkid \<times> vec3 \<times> int \<Rightarrow> worker \<times> region \<Rightarrow> worker \<times> region" where
  "visit c sr =
     (let (chunkId, chunkPosition, distanceAway) = c;
          (self, r) = sr
      in
      if chunkOutOfBounds self chunkPosition then (self, r)
      else
        (let self1 =
               (if chunkId \<notin> dom (chunkCache self) \<and> chunkId \<notin> set (requestedChunks self)
                then self\<lparr>fetchQueue := fetchQueue self @ [(chunkId, chunkPosition)],
                          requestedChunks := obj_put chunkId (requestedChunks self)\<rparr>
                else self);
             r1 =
               (if distanceAway < 3 then
                  (if chunkId \<in> set (sentClientChunks self)
                   then r\<lparr>new_sentClientChunks := obj_put chunkId (new_sentClientChunks r)\<rparr>
                   else r\<lparr>new_clientMissingChunks := obj_put chunkId (new_clientMissingChunks r)\<rparr>)
                  \<lparr>new_nearbyChunks := obj_put chunkId (new_nearbyChunks r)\<rparr>
                else r);
             r2 =
               (if chunkId \<in> set (sentClientMeshes self)
                then r1\<lparr>new_sentClientMeshes := obj_put chunkId (new_sentClientMeshes r1)\<rparr>
                else r1\<lparr>new_clientMissingMeshes := obj_put chunkId (new_clientMissingMeshes r1)\<rparr>)
         in (self1, r2\<lparr>new_chunkDistances := (new_chunkDistances r2)(chunkId \<mapsto> distanceAway)\<rparr>)))"

text \<open>
  \<open>regionChange\<close>. The Coordinator's \<open>nearbyChunkIDsEach\<close> is not part of the worker's
  file: \<open>nearby\<close> is the list of the calls it makes to the callback, in order, each with
  a chunk identifier, the chunk's position and its distance.
\<close>

definition regionChange :: "(chunkid \<times> vec3 \<times> int) list \<Rightarrow> worker \<Rightarrow> worker" where
  "regionChange nearby self0 =
     (let (self, r) = fold visit nearby (self0, emptyRegion);
          self1 = self\<lparr>nearbyChunks := new_nearbyChunks r,
                       chunkDistances := new_chunkDistances r,
                       sentClientChunks := new_sentClientChunks r,
                       sentClientMeshes := new_sentClientMeshes r,
                       clientMissingChunks := new_clientMissingChunks r,
                       clientMissingMeshes := new_clientMissingMeshes r\<rparr>;
          self2 = self1\<lparr>requestedChunks :=
                    filter (\<lambda>chunkId. chunkId \<in> dom (new_chunkDistances r)) (requestedChunks self1)\<rparr>
      in self2\<lparr>posted := posted self2 @
                  [MeshesToShow (new_chunkDistances r), NearbyChunks (new_nearbyChunks r)]\<rparr>)"

text \<open>The first loop of \<open>processChunks\<close>: voxel data for every missing chunk that is cached.\<close>

definition sendVoxels :: "chunkid \<Rightarrow> worker \<Rightarrow> worker" where
  "sendVoxels chunkId self =
     (case chunkCache self chunkId of
        None \<Rightarrow> self
      | Some c \<Rightarrow>
          self\<lparr>posted := posted self @ [ChunkVoxels c],
               clientMissingChunks := obj_delete chunkId (clientMissingChunks self),
               sentClientChunks := obj_put chunkId (sentClientChunks self)\<rparr>)"

definition transferOf :: "meshout option \<Rightarrow> (tex \<times> transferTexture) list" where
  "transferOf m =
     (case m of
        None \<Rightarrow> []
      | Some textures \<Rightarrow>
          map (\<lambda>(t, texture). (t,
            \<lparr>t_position = \<lparr>t_buffer = data (position texture), t_offset = offset (position texture),
                           t_offsetBytes = offset (position texture) * 4\<rparr>,
             t_tuples = real (offset (position texture)) / 3,
             t_texcoord = \<lparr>t_buffer = data (texcoord texture), t_offset = offset (texcoord texture),
                           t_offsetBytes = offset (texcoord texture) * 4\<rparr>,
             t_normal = \<lparr>t_buffer = data (normal texture), t_offset = offset (normal texture),
                         t_offsetBytes = offset (normal texture) * 4\<rparr>\<rparr>)) textures)"

text \<open>
  The second loop of \<open>processChunks\<close>, from index \<open>i\<close> over the rest of
  \<open>Object.keys(self.clientMissingMeshes)\<close>. The mesher the worker requires is a module
  that is not at hand, so it is a parameter: a function from a chunk's position and voxels
  to a mesh or \<open>null\<close>.
\<close>

fun meshLoop ::
  "(vec3 \<Rightarrow> nat list \<Rightarrow> meshout option) \<Rightarrow> nat \<Rightarrow> chunkid list \<Rightarrow> worker \<Rightarrow> worker" where
  "meshLoop mesher i [] self = self"
| "meshLoop mesher i (chunkId # chunkIds) self =
     (case chunkCache self chunkId of
        None \<Rightarrow> meshLoop mesher (i + 1) chunkIds self
      | Some c \<Rightarrow>
          (let m = mesher (chunk_position c) (chunk_voxels c);
               self1 = self\<lparr>posted := posted self @ [ChunkMesh chunkId (transferOf m)],
                            clientMissingMeshes := obj_delete chunkId (clientMissingMeshes self),
                            sentClientMeshes := obj_put chunkId (sentClientMeshes self)\<rparr>
           in if i > 9 then self1 else meshLoop mesher (i + 1) chunkIds self1))"

definition processChunks :: "(vec3 \<Rightarrow> nat list \<Rightarrow> meshout option) \<Rightarrow> worker \<Rightarrow> worker" where
  "processChunks mesher self =
     (let self1 = fold sendVoxels (clientMissingChunks self) self
      in meshLoop mesher 0 (clientMissingMeshes self1) self1)"

text \<open>The \<open>chunkMesh\<close> messages among the posted ones: the meshes delivered.\<close>

fun meshesPosted :: "message list \<Rightarrow> chunkid list" where
  "meshesPosted [] = []"
| "meshesPosted (ChunkMesh chunkId t # ms) = chunkId # meshesPosted ms"
| "meshesPosted (m # ms) = meshesPosted ms"


section \<open>Auxiliary definitions and example data\<close>

text \<open>
  The identifiers of the chunks that pass the world-bounds guard of the callback, among
  the calls \<open>nearbyChunkIDsEach\<close> makes.
\<close>

definition inBoundsIds :: "worker \<Rightarrow> (chunkid \<times> vec3 \<times> int) list \<Rightarrow> chunkid list" where
  "inBoundsIds self nearby =
     map fst (filter (\<lambda>(chunkId, pos, d). \<not> chunkOutOfBounds self pos) nearby)"

definition discardOld ::
  "chunkid list \<Rightarrow> (chunkid \<rightharpoonup> int) \<Rightarrow> chunkid list \<Rightarrow> chunkid list \<Rightarrow> worker \<Rightarrow> worker" where
  "discardOld n d mc mm self =
     self\<lparr>nearbyChunks := n, chunkDistances := d, clientMissingChunks := mc,
          clientMissingMeshes := mm\<rparr>"

text \<open>A worker that has sent the meshes of chunks A and B, in a world of radius 64.\<close>

definition exampleWorker :: worker where
  "exampleWorker =
     \<lparr>nearbyChunks = [], chunkDistances = Map.empty, sentClientChunks = [],
      sentClientMeshes = [''A'', ''B''], missingChunks = [], requestedChunks = [],
      clientMissingChunks = [], clientMissingMeshes = [],
      lastWorldChunks = ((-64, -64, -64), (64, 64, 64)),
      chunkCache = Map.empty, fetchQueue = [], posted = []\<rparr>"

text \<open>A worker with eleven cached chunks whose meshes are all missing.\<close>

definition elevenIds :: "chunkid list" where
  "elevenIds = [''a'', ''b'', ''c'', ''d'', ''e'', ''f'', ''g'', ''h'', ''i'', ''j'', ''k'']"

definition elevenWorker :: worker where
  "elevenWorker =
     \<lparr>nearbyChunks = [], chunkDistances = map_of (map (\<lambda>k. (k, 4)) elevenIds),
      sentClientChunks = [], sentClientMeshes = [], missingChunks = [], requestedChunks = [],
      clientMissingChunks = [], clientMissingMeshes = elevenIds,
      lastWorldChunks = ((-64, -64, -64), (64, 64, 64)),
      chunkCache =
        map_of (map (\<lambda>k. (k, \<lparr>chunkID = k, chunk_position = (0, 0, 0), chunk_voxels = [0]\<rparr>))
          elevenIds),
      fetchQueue = [], posted = []\<rparr>"

text \<open>
  An example configuration with \<open>chunkSize = 2\<close>: material 3 (the fallback) and material 7,
  a Coordinator that names a chunk by the signs of its grid coordinates and indexes voxels
  in the order of the sweeps, and a pool whose arrays hold 200 stale floats.
\<close>

definition exampleAxis :: "int \<Rightarrow> string" where
  "exampleAxis c = (if c div 2 < 0 then ''-'' else if c div 2 = 0 then ''0'' else ''+'')"

definition exampleConfig :: "nat config" where
  "exampleConfig =
     \<lparr>chunkSize = 2,
      voxelsToTextures = [3 \<mapsto> [1, 1, 1, 1, 1, 1], 7 \<mapsto> [2, 4, 4, 4, 4, 1]],
      textureOffsets = [1 \<mapsto> (0, 1 / 4, 1 / 4), 2 \<mapsto> (1 / 4, 1 / 2, 1 / 2), 4 \<mapsto> (1 / 2, 3 / 4, 3 / 4)],
      coordinatesToChunkID = (\<lambda>x y z. exampleAxis x @ exampleAxis y @ exampleAxis z),
      coordinatesToVoxelIndex = (\<lambda>x y z. nat (y mod 2) * 2 + nat (z mod 2) * 4 + nat (x mod 2)),
      malloc = (\<lambda>p. (replicate 200 (real p), p + 1)),
      fround = (\<lambda>v. v)\<rparr>"

definition exampleNeighbour :: chunk where
  "exampleNeighbour = \<lparr>chunkID = ''00-'', chunk_position = (0, 0, -2), chunk_voxels = [0, 0, 0, 0, 7, 0, 0, 0]\<rparr>"

text \<open>
  Two buffers hold the same geometry when their offsets agree and so do the floats below
  the offset (and the arrays have one capacity); two meshes, when they have the same
  texture keys in the same order, with the same geometry in the three buffers of each.
\<close>

definition sameBuffer :: "buffer \<Rightarrow> buffer \<Rightarrow> bool" where
  "sameBuffer a b =
     (offset a = offset b \<and> length (data a) = length (data b) \<and>
      take (offset a) (data a) = take (offset b) (data b))"

definition sameTexture :: "texmesh \<Rightarrow> texmesh \<Rightarrow> bool" where
  "sameTexture m1 m2 =
     (sameBuffer (position m1) (position m2) \<and> sameBuffer (texcoord m1) (texcoord m2) \<and>
      sameBuffer (normal m1) (normal m2))"

definition sameGeometry :: "meshout \<Rightarrow> meshout \<Rightarrow> bool" where
  "sameGeometry o1 o2 = list_all2 (rel_prod (=) sameTexture) o1 o2"

definition sameState :: "'p mstate \<Rightarrow> 'p mstate \<Rightarrow> bool" where
  "sameState s1 s2 = sameGeometry (out s1) (out s2)"

text \<open>
  Two calls of \<open>mesh\<close> have the same result when both throw the same exception, both
  return \<open>null\<close>, or both return meshes with the same geometry.
\<close>

definition sameResult ::
  "error + (meshout option \<times> 'p mstate) \<Rightarrow> error + (meshout option \<times> 'p mstate) \<Rightarrow> bool" where
  "sameResult r1 r2 = rel_sum (=) (rel_prod (rel_option sameGeometry) (\<lambda>s1 s2. True)) r1 r2"

text \<open>The run of a face over a whole row, and the runs of the given faces.\<close>

definition mergedRun :: "nat list \<Rightarrow> face \<Rightarrow> vec3 \<Rightarrow> vec3 \<Rightarrow> run" where
  "mergedRun textures f st en =
     \<lparr>textureValue = js_index textures (faceIndex f), start = st, end_pos = en\<rparr>"

definition mergedRuns :: "nat list \<Rightarrow> face list \<Rightarrow> vec3 \<Rightarrow> vec3 \<Rightarrow> adjacent" where
  "mergedRuns textures faces st en = map (\<lambda>f. (f, Some (mergedRun textures f st en))) faces"

text \<open>
  The vertices of a mesh: three position floats for each vertex, counted over all textures
  (\<open>processChunks\<close> posts \<open>offset / 3\<close> as the \<open>tuples\<close> of a texture).
\<close>

definition vertexCount :: "meshout \<Rightarrow> nat" where
  "vertexCount m = sum_list (map (\<lambda>tb. offset (position (snd tb)) div 3) m)"

definition offsetsKnown :: "'p config \<Rightarrow> tex \<Rightarrow> bool" where
  "offsetsKnown cfg t = (case t of None \<Rightarrow> False | Some k \<Rightarrow> k \<in> dom (textureOffsets cfg))"

definition runOK :: "'p config \<Rightarrow> run option \<Rightarrow> bool" where
  "runOK cfg r = (case r of None \<Rightarrow> True | Some info \<Rightarrow> offsetsKnown cfg (textureValue info))"

definition runsOK :: "'p config \<Rightarrow> adjacent \<Rightarrow> bool" where
  "runsOK cfg adj = list_all (\<lambda>fr. runOK cfg (snd fr)) adj"

text \<open>
  Modelled from the spec: the texture tables, which \<open>config\<close> receives from files that
  are not among the sources at hand. The spec describes a static table from a material to
  its six face textures and one from a texture to its three offsets, and a default material
  for the unknown ones: material 3 is in the table, and each of the six textures of every
  material has its offsets.
\<close>

definition tablesOK :: "'p config \<Rightarrow> bool" where
  "tablesOK cfg =
     (voxelsToTextures cfg 3 \<noteq> None \<and>
      (\<forall>v textures f. voxelsToTextures cfg v = Some textures \<longrightarrow>
         offsetsKnown cfg (js_index textures (faceIndex f))))"

definition exampleState :: "nat mstate" where
  "exampleState = \<lparr>out = [], pool = 0\<rparr>"

text \<open>A state left by earlier work: a stale mesh in \<open>out\<close> and a used pool.\<close>

definition staleState :: "nat mstate" where
  "staleState =
     \<lparr>out = [(Some 9, \<lparr>position = \<lparr>offset = 2, data = [5, 6, 7]\<rparr>,
                        texcoord = \<lparr>offset = 1, data = [8]\<rparr>,
                        normal = \<lparr>offset = 0, data = []\<rparr>\<rparr>)],
      pool = 5\<rparr>"

section \<open>Face culling\<close>

lemma shouldSkipFace_Some:
  "shouldSkipFace (Some c) (Some opp) =
     (if opp = 0 then False else if c < 100 then \<not> opp > 99 else opp > 0)"
  by (simp add: shouldSkipFace_def js_eq_def js_lt_def js_gt_def)

text \<open>
  C1, as the claim states it, fails: for the values 50 and 150, \<open>shouldSkipFace(50, 150)\<close>
  does not skip and \<open>shouldSkipFace(150, 50)\<close> skips.
\<close>

theorem shouldSkipFace_50_150_counterexample:
  "\<not> shouldSkipFace (Some 50) (Some 150) \<and> shouldSkipFace (Some 150) (Some 50)"
  by (simp add: shouldSkipFace_Some)

text \<open>
  C1, amended: the comment in the branch for a current value of 100 or more reads "the
  current face is transparent", so the values below 100 are the opaque ones. A face whose
  current value is below 100 is emitted against an opposing value above 99, and a face whose
  current value is 100 or more is skipped against every non-empty opposing value.
\<close>

theorem shouldSkipFace_threshold:
  "(c < 100 \<and> opp > 99 \<longrightarrow> \<not> shouldSkipFace (Some c) (Some opp)) \<and>
   (c \<ge> 100 \<and> opp > 0 \<longrightarrow> shouldSkipFace (Some c) (Some opp))"
  by (auto simp: shouldSkipFace_Some)

theorem shouldSkipFace_threshold_witness:
  "\<not> shouldSkipFace (Some 3) (Some 120) \<and> shouldSkipFace (Some 120) (Some 3)"
  using shouldSkipFace_threshold [of 3 120] shouldSkipFace_threshold [of 120 3] by simp

text \<open>
  C4: for a face whose opposing cell lies outside the chunk, \<open>isFaceBlocked\<close> is false
  when the chunk of that cell is not in the cache, and otherwise is \<open>shouldSkipFace\<close> of
  the current value and the voxel of the cached chunk at the Coordinator's index for the
  cell's world coordinates.
\<close>

theorem isFaceBlocked_boundary:
  assumes "opposing f x y z = (x1, y1, z1)" and "outsideChunk cs (x1, y1, z1)"
  shows "(cache (coordinatesToChunkID cfg (x1 + bx) (y1 + by) (z1 + bz)) = None \<longrightarrow>
            isFaceBlocked cfg cache (bx, by, bz) vox cs f x y z cur = False) \<and>
         (\<forall>c. cache (coordinatesToChunkID cfg (x1 + bx) (y1 + by) (z1 + bz)) = Some c \<longrightarrow>
            isFaceBlocked cfg cache (bx, by, bz) vox cs f x y z cur =
              shouldSkipFace cur
                (js_index (chunk_voxels c)
                   (coordinatesToVoxelIndex cfg (x1 + bx) (y1 + by) (z1 + bz))))"
  using assms by (simp add: isFaceBlocked_def Let_def)

theorem isFaceBlocked_boundary_witness:
  "isFaceBlocked exampleConfig Map.empty (0, 0, 0) [7, 0, 0, 0, 0, 0, 0, 0] 2 Front 0 0 0 (Some 4)
     = False \<and>
   isFaceBlocked exampleConfig [''00-'' \<mapsto> exampleNeighbour] (0, 0, 0) [7, 0, 0, 0, 0, 0, 0, 0] 2
     Front 0 0 0 (Some 4) = shouldSkipFace (Some 4) (Some 7)"
  using
    isFaceBlocked_boundary [of Front 0 0 0 0 0 "-1" 2 Map.empty exampleConfig 0 0 0
      "[7, 0, 0, 0, 0, 0, 0, 0]" "Some 4"]
    isFaceBlocked_boundary [of Front 0 0 0 0 0 "-1" 2 "[''00-'' \<mapsto> exampleNeighbour]"
      exampleConfig 0 0 0 "[7, 0, 0, 0, 0, 0, 0, 0]" "Some 4"]
  by (simp add: opposing_def outsideChunk_def exampleConfig_def exampleAxis_def
      exampleNeighbour_def js_index_def)

section \<open>Region change\<close>

lemma set_obj_put: "set (obj_put k ks) = insert k (set ks)"
  by (auto simp: obj_put_def)

lemma chunkOutOfBounds_cong:
  "lastWorldChunks a = lastWorldChunks b \<Longrightarrow> chunkOutOfBounds a p = chunkOutOfBounds b p"
  by (simp add: chunkOutOfBounds_def)

lemma visit_step:
  assumes "visit (chunkId, pos, d) (self, r) = (self', r')"
  shows "lastWorldChunks self' = lastWorldChunks self"
    and "sentClientMeshes self' = sentClientMeshes self"
    and "chunkOutOfBounds self pos \<Longrightarrow> r' = r"
    and "\<not> chunkOutOfBounds self pos \<Longrightarrow>
           dom (new_chunkDistances r') = insert chunkId (dom (new_chunkDistances r)) \<and>
           set (new_sentClientMeshes r') =
             set (new_sentClientMeshes r) \<union> ({chunkId} \<inter> set (sentClientMeshes self)) \<and>
           set (new_clientMissingMeshes r') =
             set (new_clientMissingMeshes r) \<union> ({chunkId} - set (sentClientMeshes self))"
  using assms by (auto simp: visit_def Let_def set_obj_put split: if_splits)

lemma fold_visit:
  assumes "fold visit nearby (self, r) = (self', r')"
  shows "lastWorldChunks self' = lastWorldChunks self \<and>
         sentClientMeshes self' = sentClientMeshes self \<and>
         dom (new_chunkDistances r') = dom (new_chunkDistances r) \<union> set (inBoundsIds self nearby) \<and>
         set (new_sentClientMeshes r') =
           set (new_sentClientMeshes r) \<union>
             (set (inBoundsIds self nearby) \<inter> set (sentClientMeshes self)) \<and>
         set (new_clientMissingMeshes r') =
           set (new_clientMissingMeshes r) \<union>
             (set (inBoundsIds self nearby) - set (sentClientMeshes self))"
  using assms
proof (induction nearby arbitrary: self r)
  case Nil
  then show ?case by (simp add: inBoundsIds_def)
next
  case (Cons c nearby)
  obtain chunkId pos d where c: "c = (chunkId, pos, d)" by (cases c) auto
  obtain self1 r1 where v: "visit (chunkId, pos, d) (self, r) = (self1, r1)"
    by (cases "visit (chunkId, pos, d) (self, r)") auto
  from Cons.prems c v have f: "fold visit nearby (self1, r1) = (self', r')" by simp
  note ih = Cons.IH[OF f]
  note st = visit_step[OF v]
  have ib: "inBoundsIds self1 nearby = inBoundsIds self nearby"
    using chunkOutOfBounds_cong[OF st(1)] by (simp add: inBoundsIds_def)
  show ?case
  proof (cases "chunkOutOfBounds self pos")
    case True
    with st(3) have r1: "r1 = r" by simp
    have ids: "inBoundsIds self (c # nearby) = inBoundsIds self nearby"
      using True by (simp add: c inBoundsIds_def)
    from ih ib st(1,2) r1 show ?thesis
      unfolding ids by simp
  next
    case False
    have ids: "set (inBoundsIds self (c # nearby)) = insert chunkId (set (inBoundsIds self nearby))"
      using False by (simp add: c inBoundsIds_def)
    from st(4)[OF False] ih ib st(1,2) show ?thesis
      unfolding ids by auto
  qed
qed

lemma regionChange_sets:
  "dom (chunkDistances (regionChange nearby self)) = set (inBoundsIds self nearby) \<and>
   set (sentClientMeshes (regionChange nearby self)) =
     set (inBoundsIds self nearby) \<inter> set (sentClientMeshes self) \<and>
   set (clientMissingMeshes (regionChange nearby self)) =
     set (inBoundsIds self nearby) - set (sentClientMeshes self)"
proof -
  obtain self' r' where f: "fold visit nearby (self, emptyRegion) = (self', r')"
    by (cases "fold visit nearby (self, emptyRegion)") auto
  have e: "dom (new_chunkDistances emptyRegion) = {}" "new_sentClientMeshes emptyRegion = []"
    "new_clientMissingMeshes emptyRegion = []"
    by (simp_all add: emptyRegion_def)
  from fold_visit[OF f] show ?thesis
    by (simp add: regionChange_def f Let_def e)
qed

lemma visit_discardOld:
  "visit c (discardOld n d mc mm self, r) =
     (discardOld n d mc mm (fst (visit c (self, r))), snd (visit c (self, r)))"
  by (cases c) (simp add: visit_def discardOld_def chunkOutOfBounds_def Let_def)

lemma fold_visit_discardOld:
  "fold visit nearby (discardOld n d mc mm self, r) =
     (discardOld n d mc mm (fst (fold visit nearby (self, r))), snd (fold visit nearby (self, r)))"
proof (induction nearby arbitrary: self r)
  case Nil
  then show ?case by simp
next
  case (Cons c nearby)
  show ?case
    by (simp add: visit_discardOld Cons.IH[of "fst (visit c (self, r))" "snd (visit c (self, r))"])
qed

lemma regionChange_discardOld:
  "regionChange nearby (discardOld n d mc mm self) = regionChange nearby self"
proof -
  obtain self' r' where f: "fold visit nearby (self, emptyRegion) = (self', r')"
    by (cases "fold visit nearby (self, emptyRegion)") auto
  have g: "fold visit nearby (discardOld n d mc mm self, emptyRegion) =
             (discardOld n d mc mm self', r')"
    by (simp add: fold_visit_discardOld f)
  show ?thesis
    unfolding regionChange_def f g by (simp add: discardOld_def)
qed

text \<open>
  C5, as the claim states it, fails: the callback returns at once for a chunk beyond the
  world bounds. With the meshes of A and B sent and B and C enumerated, C at position
  \<open>(96, 0, 0)\<close> in a world that ends at 64, \<open>clientMissingMeshes\<close> is not \<open>{C}\<close>.
\<close>

theorem regionChange_out_of_bounds_counterexample:
  "set (sentClientMeshes exampleWorker) = {''A'', ''B''} \<and>
   fst ` set [(''B'', (0, 0, 0), 0), (''C'', (96, 0, 0), 3)] = {''B'', ''C''} \<and>
   set (clientMissingMeshes
          (regionChange [(''B'', (0, 0, 0), 0), (''C'', (96, 0, 0), 3)] exampleWorker)) \<noteq> {''C''}"
  by (simp add: exampleWorker_def regionChange_def visit_def chunkOutOfBounds_def
      emptyRegion_def obj_put_def Let_def)

text \<open>
  C5, amended: when the previous \<open>sentClientMeshes\<close> is \<open>{A, B}\<close>, the enumerated chunks are
  \<open>{B, C}\<close> and every enumerated chunk lies within the world bounds, then after
  \<open>regionChange\<close> \<open>clientMissingMeshes\<close> is \<open>{C}\<close> and \<open>sentClientMeshes\<close> is \<open>{B}\<close>; and the
  previous \<open>nearbyChunks\<close>, \<open>chunkDistances\<close>, \<open>clientMissingChunks\<close> and
  \<open>clientMissingMeshes\<close> have no influence on the state after the call.
\<close>

theorem regionChange_diff:
  assumes "set (sentClientMeshes self) = {A, B}"
    and "fst ` set nearby = {B, C}"
    and "distinct [A, B, C]"
    and "\<forall>c \<in> set nearby. \<not> chunkOutOfBounds self (fst (snd c))"
  shows "set (clientMissingMeshes (regionChange nearby self)) = {C} \<and>
         set (sentClientMeshes (regionChange nearby self)) = {B} \<and>
         regionChange nearby
           (self\<lparr>nearbyChunks := n, chunkDistances := d, clientMissingChunks := mc,
                 clientMissingMeshes := mm\<rparr>) = regionChange nearby self"
proof -
  have "filter (\<lambda>(chunkId, pos, d). \<not> chunkOutOfBounds self pos) nearby = nearby"
    using assms(4) by (auto intro!: filter_True)
  then have ids: "set (inBoundsIds self nearby) = {B, C}"
    using assms(2) by (simp add: inBoundsIds_def)
  from regionChange_sets[of nearby self] ids assms(1,3)
  have "set (clientMissingMeshes (regionChange nearby self)) = {C}"
    and "set (sentClientMeshes (regionChange nearby self)) = {B}"
    by auto
  moreover have "regionChange nearby
           (self\<lparr>nearbyChunks := n, chunkDistances := d, clientMissingChunks := mc,
                 clientMissingMeshes := mm\<rparr>) = regionChange nearby self"
    using regionChange_discardOld[of nearby n d mc mm self] by (simp add: discardOld_def)
  ultimately show ?thesis by simp
qed

theorem regionChange_diff_witness:
  "set (clientMissingMeshes
          (regionChange [(''B'', (0, 0, 0), 0), (''C'', (32, 0, 0), 1)] exampleWorker)) = {''C''} \<and>
   set (sentClientMeshes
          (regionChange [(''B'', (0, 0, 0), 0), (''C'', (32, 0, 0), 1)] exampleWorker)) = {''B''}"
  using regionChange_diff [of exampleWorker "''A''" "''B''"
      "[(''B'', (0, 0, 0), 0), (''C'', (32, 0, 0), 1)]" "''C''"]
  by (simp add: exampleWorker_def chunkOutOfBounds_def)

text \<open>
  C10: after \<open>regionChange\<close> the keys of \<open>chunkDistances\<close> are exactly the members of
  \<open>sentClientMeshes\<close> and \<open>clientMissingMeshes\<close> together, and no chunk identifier is in
  both sets.
\<close>

theorem regionChange_partition:
  "dom (chunkDistances (regionChange nearby self)) =
     set (sentClientMeshes (regionChange nearby self)) \<union>
     set (clientMissingMeshes (regionChange nearby self)) \<and>
   set (sentClientMeshes (regionChange nearby self)) \<inter>
     set (clientMissingMeshes (regionChange nearby self)) = {}"
  using regionChange_sets[of nearby self] by auto

section \<open>Fetch completion\<close>

text \<open>
  C8: when a fetch completes for a chunk identifier that is not a key of \<open>chunkDistances\<close>,
  the chunk cache is left as it was and nothing is posted.
\<close>

theorem onload_untracked_discarded:
  assumes "chunkId \<notin> dom (chunkDistances self)"
  shows "chunkCache (onload chunkId pos response self) = chunkCache self \<and>
         posted (onload chunkId pos response self) = posted self"
  using assms by (simp add: onload_def Let_def split: option.splits)

theorem onload_untracked_discarded_witness:
  "chunkCache (onload ''C'' (32, 0, 0) (Some [1, 2, 3]) exampleWorker) = chunkCache exampleWorker \<and>
   chunkCache (onload ''C'' (32, 0, 0) (Some [1, 2, 3]) exampleWorker) ''C'' = None"
  using onload_untracked_discarded [of "''C''" exampleWorker "(32, 0, 0)" "Some [1, 2, 3]"]
  by (simp add: exampleWorker_def)

section \<open>Mesh delivery\<close>

text \<open>One call of \<open>processChunks\<close> posts at most eleven meshes.\<close>

lemma meshesPosted_append: "meshesPosted (ms @ ns) = meshesPosted ms @ meshesPosted ns"
  by (induction ms rule: meshesPosted.induct) auto

lemma meshesPosted_sendVoxels: "meshesPosted (posted (sendVoxels k s)) = meshesPosted (posted s)"
  by (simp add: sendVoxels_def meshesPosted_append split: option.splits)

lemma meshesPosted_fold_sendVoxels:
  "meshesPosted (posted (fold sendVoxels ks s)) = meshesPosted (posted s)"
  by (induction ks arbitrary: s) (simp_all add: meshesPosted_sendVoxels)

lemma meshLoop_bound:
  "length (meshesPosted (posted (meshLoop mesher i ids s))) \<le>
     length (meshesPosted (posted s)) + (if i \<le> 10 then 11 - i else 1)"
proof (induction ids arbitrary: i s)
  case Nil
  then show ?case by simp
next
  case (Cons k ids)
  show ?case
  proof (cases "chunkCache s k")
    case None
    with Cons.IH[of "i + 1" s] show ?thesis by (auto split: if_splits)
  next
    case (Some c)
    let ?s1 = "s\<lparr>posted := posted s @ [ChunkMesh k (transferOf (mesher (chunk_position c) (chunk_voxels c)))],
                  clientMissingMeshes := obj_delete k (clientMissingMeshes s),
                  sentClientMeshes := obj_put k (sentClientMeshes s)\<rparr>"
    have p: "length (meshesPosted (posted ?s1)) = length (meshesPosted (posted s)) + 1"
      by (simp add: meshesPosted_append)
    show ?thesis
    proof (cases "i > 9")
      case True
      with Some p show ?thesis by (auto simp: Let_def)
    next
      case False
      with Cons.IH[of "i + 1" ?s1] Some p show ?thesis
        by (auto simp: Let_def split: if_splits)
    qed
  qed
qed

lemma processChunks_bound:
  "length (meshesPosted (posted (processChunks mesher s))) \<le> length (meshesPosted (posted s)) + 11"
  using meshLoop_bound[of mesher 0 "clientMissingMeshes (fold sendVoxels (clientMissingChunks s) s)"
      "fold sendVoxels (clientMissingChunks s) s"]
  by (simp add: processChunks_def meshesPosted_fold_sendVoxels Let_def)

text \<open>
  C6 at a worker with eleven cached chunks whose meshes are missing: one call of
  \<open>processChunks\<close> posts eleven meshes and leaves none missing. The loop tests
  \<open>i > 9\<close> after the delivery at index \<open>i\<close>, so the delivery at index 10 still happens.
\<close>

theorem processChunks_eleven_meshes:
  "length (meshesPosted (posted (processChunks (\<lambda>p v. None) elevenWorker))) = 11 \<and>
   clientMissingMeshes (processChunks (\<lambda>p v. None) elevenWorker) = []"
  by (simp add: processChunks_def elevenWorker_def elevenIds_def transferOf_def
      obj_delete_def obj_put_def)

section \<open>The sweeps: auxiliary facts\<close>

lemma sweepRowX_unfold:
  "sweepRowX cfg cache base vox y z (adj, s) =
     (case foldE (\<lambda>x. cellStep cfg cache base vox (int x) (int y) (int z)
                         (y * chunkSize cfg + z * chunkSize cfg * chunkSize cfg + x))
             [0..<chunkSize cfg] (resetFaces adj, s) of
        Inl e \<Rightarrow> Inl e
      | Inr (adj', s') \<Rightarrow>
          (case addFaces cfg base adj' s' of
             Inl e \<Rightarrow> Inl e
           | Inr s'' \<Rightarrow> Inr (resetFaces adj', s'')))"
  by (simp add: sweepRowX_def Let_def)

lemma sweepRowZ_unfold:
  "sweepRowZ cfg cache base vox y x (adj, s) =
     (case foldE (\<lambda>z. cellStep cfg cache base vox (int x) (int y) (int z)
                         (y * chunkSize cfg + z * chunkSize cfg * chunkSize cfg + x))
             [0..<chunkSize cfg] (resetFaces adj, s) of
        Inl e \<Rightarrow> Inl e
      | Inr (adj', s') \<Rightarrow>
          (case addFaces cfg base adj' s' of
             Inl e \<Rightarrow> Inl e
           | Inr s'' \<Rightarrow> Inr (resetFaces adj', s'')))"
proof -
  have e: "(\<lambda>z. cellStep cfg cache base vox (int x) (int y) (int z)
                  (y * chunkSize cfg + x + z * chunkSize cfg * chunkSize cfg)) =
           (\<lambda>z. cellStep cfg cache base vox (int x) (int y) (int z)
                  (y * chunkSize cfg + z * chunkSize cfg * chunkSize cfg + x))"
  proof (rule ext)
    fix z
    have "y * chunkSize cfg + x + z * chunkSize cfg * chunkSize cfg =
            y * chunkSize cfg + z * chunkSize cfg * chunkSize cfg + x"
      by simp
    then show "cellStep cfg cache base vox (int x) (int y) (int z)
                  (y * chunkSize cfg + x + z * chunkSize cfg * chunkSize cfg) =
               cellStep cfg cache base vox (int x) (int y) (int z)
                  (y * chunkSize cfg + z * chunkSize cfg * chunkSize cfg + x)"
      by (rule arg_cong)
  qed
  show ?thesis
    unfolding sweepRowZ_def Let_def prod.case e ..
qed



lemma facesLoop_start:
  assumes tx: "voxelsToTextures cfg v = Some textures"
  shows "\<forall>f \<in> set faces. \<not> isFaceBlocked cfg cache base vox (chunkSize cfg) f x y z
                               (js_index textures (faceIndex f)) \<Longrightarrow>
    facesLoop cfg cache base vox v x y z (map (\<lambda>f. (f, None)) faces) s =
      Inr (mergedRuns textures faces (x, y, z) (x, y, z), s)"
  by (induction faces) (auto simp: faceStep_def tx Let_def mergedRuns_def mergedRun_def)


lemma cellStep_material:
  assumes "js_index vox i = Some v" and "v \<noteq> 0"
  shows "cellStep cfg cache base vox x y z i (adj, s) =
     facesLoop cfg cache base vox (if v \<in> dom (voxelsToTextures cfg) then v else 3) x y z adj s"
  using assms by (simp add: cellStep_def js_eq_def Let_def)


lemma offset_pushAll: "offset (pushAll rnd vs b) = offset b + length vs"
  unfolding pushAll_def by (induction vs arbitrary: b) (auto simp: push_def)

lemma length_facePoints: "length (facePoints f sx sy sz ex ey ez) = 18"
  by (cases f) (simp_all add: facePoints_def)

section \<open>The result of \<open>mesh\<close>\<close>

lemma allocate_lookup: "map_of (out (allocate cfg t s)) t \<noteq> None"
proof (cases "t \<in> fst ` set (out s)")
  case True
  then show ?thesis by (simp add: allocate_def map_of_eq_None_iff)
next
  case False
  then show ?thesis by (simp add: allocate_def split_beta Let_def)
qed

lemma addFace_ok:
  assumes "offsetsKnown cfg (textureValue info)"
  shows "\<exists>s'. addFace cfg basePosition f info s = Inr s'"
  using assms allocate_lookup[of cfg "textureValue info" s]
  by (auto simp: addFace_def offsetsKnown_def split_beta Let_def split: option.splits)

lemma addFaces_ok:
  "runsOK cfg adj \<Longrightarrow> \<exists>s'. addFaces cfg basePosition adj s = Inr s'"
proof (induction adj arbitrary: s)
  case Nil
  then show ?case by simp
next
  case (Cons fr adj)
  obtain f cur where fr: "fr = (f, cur)" by (cases fr) auto
  from Cons.prems have rest: "runsOK cfg adj" and cur: "runOK cfg cur"
    by (simp_all add: runsOK_def fr)
  show ?case
  proof (cases cur)
    case None
    with Cons.IH[OF rest] show ?thesis by (simp add: fr)
  next
    case (Some info)
    with cur have "offsetsKnown cfg (textureValue info)" by (simp add: runOK_def)
    from addFace_ok[OF this, of basePosition f s] obtain s1 where
      "addFace cfg basePosition f info s = Inr s1" by blast
    with Cons.IH[OF rest, of s1] show ?thesis by (simp add: fr Some)
  qed
qed

lemma runsOK_resetFaces: "runsOK cfg (resetFaces adj)"
  by (induction adj) (auto simp: runsOK_def resetFaces_def runOK_def)

lemma faceStep_ok:
  assumes t: "tablesOK cfg" and v: "voxelsToTextures cfg v \<noteq> None" and c: "runOK cfg (snd fr)"
  shows "\<exists>fr' s'. faceStep cfg cache basePosition vox v x y z fr s = Inr (fr', s') \<and>
           runOK cfg (snd fr')"
proof -
  obtain f cur where fr: "fr = (f, cur)" by (cases fr) auto
  from v obtain textures where tx: "voxelsToTextures cfg v = Some textures" by auto
  with t have k: "offsetsKnown cfg (js_index textures (faceIndex f))"
    by (auto simp: tablesOK_def)
  show ?thesis
  proof (cases cur)
    case None
    then show ?thesis
      using k by (simp add: faceStep_def fr tx Let_def runOK_def)
  next
    case (Some r)
    with c fr have "offsetsKnown cfg (textureValue r)" by (simp add: runOK_def)
    from addFace_ok[OF this, of basePosition f s] obtain s1 where
      a: "addFace cfg basePosition f r s = Inr s1" by blast
    show ?thesis
      using k a c by (auto simp: faceStep_def fr tx Let_def runOK_def Some)
  qed
qed

lemma facesLoop_ok:
  assumes t: "tablesOK cfg" and v: "voxelsToTextures cfg v \<noteq> None"
  shows "runsOK cfg adj \<Longrightarrow>
         \<exists>adj' s'. facesLoop cfg cache basePosition vox v x y z adj s = Inr (adj', s') \<and>
           runsOK cfg adj'"
proof (induction adj arbitrary: s)
  case Nil
  then show ?case by (simp add: runsOK_def)
next
  case (Cons fr adj)
  from Cons.prems have rest: "runsOK cfg adj" and cur: "runOK cfg (snd fr)"
    by (simp_all add: runsOK_def)
  from faceStep_ok[OF t v cur, of cache basePosition vox x y z s] obtain fr' s1 where
    st: "faceStep cfg cache basePosition vox v x y z fr s = Inr (fr', s1)" and ok: "runOK cfg (snd fr')"
    by blast
  from Cons.IH[OF rest, of s1] obtain adj' s2 where
    lp: "facesLoop cfg cache basePosition vox v x y z adj s1 = Inr (adj', s2)" and ok2: "runsOK cfg adj'"
    by blast
  show ?case using st lp ok ok2 by (simp add: runsOK_def)
qed

lemma cellStep_ok:
  assumes t: "tablesOK cfg" and a: "runsOK cfg (fst a)"
  shows "\<exists>b. cellStep cfg cache basePosition vox x y z i a = Inr b \<and> runsOK cfg (fst b)"
proof -
  obtain adj s where as: "a = (adj, s)" by (cases a) auto
  from a as have adj: "runsOK cfg adj" by simp
  show ?thesis
  proof (cases "js_eq (js_index vox i) 0")
    case True
    from addFaces_ok[OF adj, of basePosition s] obtain s1 where
      "addFaces cfg basePosition adj s = Inr s1" by blast
    with True show ?thesis
      by (simp add: cellStep_def as Let_def runsOK_resetFaces)
  next
    case False
    let ?v = "case js_index vox i of
                    Some n \<Rightarrow> if n \<in> dom (voxelsToTextures cfg) then n else 3
                  | None \<Rightarrow> 3"
    have v: "voxelsToTextures cfg ?v \<noteq> None"
      using t by (auto simp: tablesOK_def split: option.splits)
    from facesLoop_ok[OF t v adj, of cache basePosition vox x y z s] show ?thesis
      using False by (auto simp: cellStep_def as Let_def)
  qed
qed

lemma foldE_ok:
  assumes step: "\<And>x a. I a \<Longrightarrow> \<exists>b. body x a = Inr b \<and> I b"
  shows "I a \<Longrightarrow> \<exists>b. foldE body xs a = Inr b \<and> I b"
proof (induction xs arbitrary: a)
  case Nil
  then show ?case by simp
next
  case (Cons x xs)
  from step[OF Cons.prems, of x] obtain b where b: "body x a = Inr b" "I b" by blast
  from Cons.IH[OF b(2)] b(1) show ?case by simp
qed

lemma row_ok:
  assumes t: "tablesOK cfg"
  shows "\<exists>b. sweepRowX cfg cache basePosition vox y z a = Inr b \<and> runsOK cfg (fst b)"
    and "\<exists>b. sweepRowZ cfg cache basePosition vox y x a = Inr b \<and> runsOK cfg (fst b)"
proof -
  obtain adj s where as: "a = (adj, s)" by (cases a) auto
  have start: "runsOK cfg (fst (resetFaces adj, s))" by (simp add: runsOK_resetFaces)
  have "\<exists>b. foldE (\<lambda>x. cellStep cfg cache basePosition vox (int x) (int y) (int z)
                         (y * chunkSize cfg + z * chunkSize cfg * chunkSize cfg + x)) [0..<chunkSize cfg] (resetFaces adj, s) = Inr b
           \<and> runsOK cfg (fst b)"
    by (rule foldE_ok[where I = "\<lambda>a. runsOK cfg (fst a)", OF _ start]) (rule cellStep_ok[OF t])
  then obtain adj1 s1 where
    l: "foldE (\<lambda>x. cellStep cfg cache basePosition vox (int x) (int y) (int z)
                         (y * chunkSize cfg + z * chunkSize cfg * chunkSize cfg + x)) [0..<chunkSize cfg] (resetFaces adj, s) = Inr (adj1, s1)"
    and ok: "runsOK cfg adj1" by auto
  from addFaces_ok[OF ok, of basePosition s1] obtain s2 where
    "addFaces cfg basePosition adj1 s1 = Inr s2" by blast
  with l show "\<exists>b. sweepRowX cfg cache basePosition vox y z a = Inr b \<and> runsOK cfg (fst b)"
    by (simp add: sweepRowX_unfold as runsOK_resetFaces)
  have "\<exists>b. foldE (\<lambda>z. cellStep cfg cache basePosition vox (int x) (int y) (int z)
                         (y * chunkSize cfg + z * chunkSize cfg * chunkSize cfg + x)) [0..<chunkSize cfg] (resetFaces adj, s) = Inr b
           \<and> runsOK cfg (fst b)"
    by (rule foldE_ok[where I = "\<lambda>a. runsOK cfg (fst a)", OF _ start]) (rule cellStep_ok[OF t])
  then obtain adj3 s3 where
    l3: "foldE (\<lambda>z. cellStep cfg cache basePosition vox (int x) (int y) (int z)
                         (y * chunkSize cfg + z * chunkSize cfg * chunkSize cfg + x)) [0..<chunkSize cfg] (resetFaces adj, s) = Inr (adj3, s3)"
    and ok3: "runsOK cfg adj3" by auto
  from addFaces_ok[OF ok3, of basePosition s3] obtain s4 where
    "addFaces cfg basePosition adj3 s3 = Inr s4" by blast
  with l3 show "\<exists>b. sweepRowZ cfg cache basePosition vox y x a = Inr b \<and> runsOK cfg (fst b)"
    by (simp add: sweepRowZ_unfold as runsOK_resetFaces)
qed

lemma slice_ok:
  assumes t: "tablesOK cfg"
  shows "\<exists>s'. slice cfg cache basePosition vox y s = Inr s'"
proof -
  have "\<exists>b. foldE (sweepRowX cfg cache basePosition vox y) [0..<chunkSize cfg] (adjacentX, s) = Inr b \<and> True"
  proof (rule foldE_ok[where I = "\<lambda>a. True"])
    fix z a
    show "\<exists>b. sweepRowX cfg cache basePosition vox y z a = Inr b \<and> True"
      using row_ok(1)[OF t, of cache basePosition vox y z a] by blast
  qed simp
  then obtain a1 s1 where
    l1: "foldE (sweepRowX cfg cache basePosition vox y) [0..<chunkSize cfg] (adjacentX, s) = Inr (a1, s1)"
    by auto
  have "\<exists>b. foldE (sweepRowZ cfg cache basePosition vox y) [0..<chunkSize cfg] (adjacentZ, s1) = Inr b \<and> True"
  proof (rule foldE_ok[where I = "\<lambda>a. True"])
    fix x a
    show "\<exists>b. sweepRowZ cfg cache basePosition vox y x a = Inr b \<and> True"
      using row_ok(2)[OF t, of cache basePosition vox y x a] by blast
  qed simp
  then obtain a2 s2 where
    l2: "foldE (sweepRowZ cfg cache basePosition vox y) [0..<chunkSize cfg] (adjacentZ, s1) = Inr (a2, s2)"
    by auto
  show ?thesis by (simp add: slice_def l1 l2)
qed

lemma calculate_ok:
  assumes t: "tablesOK cfg"
  shows "\<exists>s'. calculate cfg cache basePosition vox s = Inr s'"
proof -
  have "\<exists>b. foldE (slice cfg cache basePosition vox) [0..<chunkSize cfg] s = Inr b \<and> True"
  proof (rule foldE_ok[where I = "\<lambda>a. True"])
    fix y a
    show "\<exists>b. slice cfg cache basePosition vox y a = Inr b \<and> True"
      using slice_ok[OF t, of cache basePosition vox y a] by blast
  qed simp
  then show ?thesis by (simp add: calculate_def)
qed

lemma tablesOK_example: "tablesOK exampleConfig"
  by (auto simp: tablesOK_def exampleConfig_def offsetsKnown_def js_index_def faceIndex_def
      split: if_splits face.splits)

text \<open>
  C7: \<open>mesh\<close> returns \<open>null\<close> exactly when the voxel grid is absent or has length zero,
  and then it returns normally, leaving the state as it was; on a non-empty grid, with
  well-formed texture tables, it returns a mesh.
\<close>

theorem mesh_null_iff_empty:
  "((\<exists>s'. mesh cfg cache pos voxs s = Inr (None, s')) \<longleftrightarrow> (voxs = None \<or> voxs = Some [])) \<and>
   (voxs = None \<or> voxs = Some [] \<longrightarrow> mesh cfg cache pos voxs s = Inr (None, s)) \<and>
   (tablesOK cfg \<longrightarrow>
      (\<forall>vox. voxs = Some vox \<and> vox \<noteq> [] \<longrightarrow>
         (\<exists>m s'. mesh cfg cache pos voxs s = Inr (Some m, s'))))"
proof -
  have a: "mesh cfg cache pos voxs s = Inr (None, s)" if "voxs = None \<or> voxs = Some []"
    using that by (auto simp: mesh_def)
  have b: "voxs = None \<or> voxs = Some []" if "mesh cfg cache pos voxs s = Inr (None, s')" for s'
    using that by (auto simp: mesh_def split: option.splits if_splits sum.splits)
  have c: "\<exists>m s'. mesh cfg cache pos voxs s = Inr (Some m, s')"
    if t: "tablesOK cfg" and v: "voxs = Some vox" "vox \<noteq> []" for vox
  proof -
    from calculate_ok[OF t, of cache pos vox "s\<lparr>out := []\<rparr>"] obtain s' where
      "calculate cfg cache pos vox (s\<lparr>out := []\<rparr>) = Inr s'" by blast
    with v show ?thesis by (simp add: mesh_def)
  qed
  from a b have "(\<exists>s'. mesh cfg cache pos voxs s = Inr (None, s')) \<longleftrightarrow> (voxs = None \<or> voxs = Some [])"
    by blast
  with a c show ?thesis by blast
qed

theorem mesh_null_iff_empty_witness:
  "mesh exampleConfig Map.empty (0, 0, 0) None exampleState = Inr (None, exampleState) \<and>
   mesh exampleConfig Map.empty (0, 0, 0) (Some []) exampleState = Inr (None, exampleState) \<and>
   (\<exists>m s'. mesh exampleConfig Map.empty (0, 0, 0) (Some [7, 0, 0, 0, 0, 0, 0, 0]) exampleState =
              Inr (Some m, s'))"
  using
    mesh_null_iff_empty [of exampleConfig Map.empty "(0, 0, 0)" None exampleState]
    mesh_null_iff_empty [of exampleConfig Map.empty "(0, 0, 0)" "Some []" exampleState]
    mesh_null_iff_empty [of exampleConfig Map.empty "(0, 0, 0)" "Some [7, 0, 0, 0, 0, 0, 0, 0]"
      exampleState]
    tablesOK_example
  by simp

section \<open>Run merging\<close>

lemma vertexCount_update:
  assumes "map_of al t = Some m" and "offset (position m') = offset (position m) + 18"
  shows "vertexCount (AList.update t m' al) = vertexCount al + 6"
  using assms
proof (induction al)
  case Nil
  then show ?case by simp
next
  case (Cons p al)
  then show ?case
    by (cases p) (auto simp: vertexCount_def split: if_splits)
qed

lemma vertexCount_allocate: "vertexCount (out (allocate cfg t s)) = vertexCount (out s)"
  by (simp add: allocate_def vertexCount_def split_beta Let_def newBuffer_def)

lemma addFace_vertexCount:
  assumes "addFace cfg base f info s0 = Inr s1"
  shows "vertexCount (out s1) = vertexCount (out s0) + 6"
proof -
  let ?t = "textureValue info"
  from assms obtain m where m: "map_of (out (allocate cfg ?t s0)) ?t = Some m"
    by (auto simp: addFace_def split_beta Let_def split: option.splits)
  from assms m obtain m' where
    o: "out s1 = AList.update ?t m' (out (allocate cfg ?t s0))"
    and p: "offset (position m') = offset (position m) + 18"
    by (auto simp: addFace_def split_beta Let_def offset_pushAll length_facePoints
        split: option.splits)
  from vertexCount_update[OF m p] show ?thesis
    by (simp add: o vertexCount_allocate)
qed

lemma addFace_emits:
  assumes "offsetsKnown cfg (textureValue info)"
  shows "\<exists>s1. addFace cfg base f info s0 = Inr s1 \<and> vertexCount (out s1) = vertexCount (out s0) + 6"
proof -
  from addFace_ok[OF assms, of base f s0] obtain s1 where
    a: "addFace cfg base f info s0 = Inr s1" by blast
  with addFace_vertexCount[OF a] show ?thesis by blast
qed

lemma addFaces_vertexCount:
  "runsOK cfg adj \<Longrightarrow>
   \<exists>s'. addFaces cfg base adj s = Inr s' \<and>
        vertexCount (out s') =
          vertexCount (out s) + 6 * length (filter (\<lambda>fr. snd fr \<noteq> None) adj)"
proof (induction adj arbitrary: s)
  case Nil
  then show ?case by simp
next
  case (Cons fr adj)
  obtain f cur where fr: "fr = (f, cur)" by (cases fr) auto
  from Cons.prems have rest: "runsOK cfg adj" and cur: "runOK cfg cur"
    by (simp_all add: runsOK_def fr)
  show ?case
  proof (cases cur)
    case None
    with Cons.IH[OF rest, of s] show ?thesis by (simp add: fr)
  next
    case (Some info)
    with cur have "offsetsKnown cfg (textureValue info)" by (simp add: runOK_def)
    from addFace_emits[OF this, of base f s] obtain s1 where
      a: "addFace cfg base f info s = Inr s1" "vertexCount (out s1) = vertexCount (out s) + 6"
      by blast
    from Cons.IH[OF rest, of s1] obtain s' where
      b: "addFaces cfg base adj s1 = Inr s'"
      and c: "vertexCount (out s') =
                vertexCount (out s1) + 6 * length (filter (\<lambda>fr. snd fr \<noteq> None) adj)"
      by blast
    from a b c show ?thesis by (simp add: fr Some)
  qed
qed



lemma exampleOffsets: "\<forall>f. offsetsKnown exampleConfig (js_index [2, 4, 4, 4, 4, 1] (faceIndex f))"
proof
  fix f
  show "offsetsKnown exampleConfig (js_index [2, 4, 4, 4, 4, 1] (faceIndex f))"
    by (cases f) (simp_all add: offsetsKnown_def exampleConfig_def js_index_def faceIndex_def)
qed

lemma exampleMaterial:
  "voxelsToTextures exampleConfig (if 7 \<in> dom (voxelsToTextures exampleConfig) then 7 else 3) =
     Some [2, 4, 4, 4, 4, 1]"
  by (simp add: exampleConfig_def)

lemma all_less_two: "(\<forall>k < (2::nat). P k) = (P 0 \<and> P 1)"
  by (auto simp: less_Suc_eq numeral_2_eq_2)



section \<open>Voxel index of the sweeps\<close>

lemma addFaces_reset: "addFaces cfg base (resetFaces adj) s = Inr s"
  by (induction adj) (auto simp: resetFaces_def)

lemma resetFaces_idem: "resetFaces (resetFaces adj) = resetFaces adj"
  by (induction adj) (auto simp: resetFaces_def)

lemma cellStep_empty:
  assumes "js_index vox i = Some 0"
  shows "cellStep cfg cache base vox cx cy cz i (adj, s) =
     (case addFaces cfg base adj s of Inl e \<Rightarrow> Inl e | Inr s' \<Rightarrow> Inr (resetFaces adj, s'))"
  using assms by (simp add: cellStep_def js_eq_def)

lemma empty_cells:
  "\<forall>k \<in> set ks. js_index vox (idx k) = Some 0 \<Longrightarrow>
   foldE (\<lambda>k. cellStep cfg cache base vox (cx k) (cy k) (cz k) (idx k)) ks (resetFaces adj, s) =
     Inr (resetFaces adj, s)"
  by (induction ks) (simp_all add: cellStep_empty addFaces_reset resetFaces_idem)

lemma resetFaces_adjacent: "resetFaces adjacentX = adjacentX" "resetFaces adjacentZ = adjacentZ"
  by (simp_all add: resetFaces_def adjacentX_def adjacentZ_def)

text \<open>
  C2, as the claim states it, fails. With \<open>chunkSize = 2\<close> the claim has the sweep read
  the cell at local \<open>(0, 1, 0)\<close> at index \<open>1 * 2 * 2 + 0 * 2 + 0 = 4\<close>. In a grid whose
  only non-empty voxel is at index 4, the sweep of the row of the cells \<open>(0, 1, 0)\<close> and
  \<open>(1, 1, 0)\<close> emits nothing; in a grid whose only non-empty voxel is at index 2, where
  index 4 is empty, the same sweep emits the four faces of the cell, 24 vertices.
\<close>

theorem sweep_reads_index_counterexample:
  "js_index [0, 0, 0, 0, 7, 0, 0, 0] (1 * 2 * 2 + 0 * 2 + 0) = Some (7::nat) \<and>
   sweepRowX exampleConfig Map.empty (0, 0, 0) [0, 0, 0, 0, 7, 0, 0, 0] 1 0
     (adjacentX, exampleState) = Inr (adjacentX, exampleState) \<and>
   js_index [0, 0, 7, 0, 0, 0, 0, 0] (1 * 2 * 2 + 0 * 2 + 0) = Some (0::nat) \<and>
   (\<exists>s'. sweepRowX exampleConfig Map.empty (0, 0, 0) [0, 0, 7, 0, 0, 0, 0, 0] 1 0
            (adjacentX, exampleState) = Inr (adjacentX, s') \<and>
          vertexCount (out s') = 24)"
proof -
  let ?R = "mergedRuns [2, 4, 4, 4, 4, 1] [Front, Back, Top, Bottom] (0, 1, 0) (0, 1, 0)"
  have cs: "chunkSize exampleConfig = 2" by (simp add: exampleConfig_def)
  have u: "[0..<2] = [0, 1]" by (simp add: numeral_2_eq_2)
  have A: "sweepRowX exampleConfig Map.empty (0, 0, 0) [0, 0, 0, 0, 7, 0, 0, 0] 1 0
     (adjacentX, exampleState) = Inr (adjacentX, exampleState)"
  proof -
    have e2: "js_index [0, 0, 0, 0, 7, 0, 0, 0] 2 = Some (0::nat)"
      and e3: "js_index [0, 0, 0, 0, 7, 0, 0, 0] 3 = Some (0::nat)"
      by (simp_all add: js_index_def)
    have n0: "addFaces exampleConfig (0, 0, 0) adjacentX exampleState = Inr exampleState"
      by (simp add: adjacentX_def)
    have s0: "cellStep exampleConfig Map.empty (0, 0, 0) [0, 0, 0, 0, 7, 0, 0, 0]
        (int 0) (int 1) (int 0) (1 * 2 + 0 * 2 * 2 + 0) (adjacentX, exampleState) =
        Inr (adjacentX, exampleState)"
      using cellStep_empty[OF e2, of exampleConfig Map.empty "(0, 0, 0)" 0 1 0 adjacentX
          exampleState]
      by (simp add: n0 resetFaces_adjacent)
    have s1: "cellStep exampleConfig Map.empty (0, 0, 0) [0, 0, 0, 0, 7, 0, 0, 0]
        (int 1) (int 1) (int 0) (1 * 2 + 0 * 2 * 2 + 1) (adjacentX, exampleState) =
        Inr (adjacentX, exampleState)"
      using cellStep_empty[OF e3, of exampleConfig Map.empty "(0, 0, 0)" 1 1 0 adjacentX
          exampleState]
      by (simp add: n0 resetFaces_adjacent)
    have unf: "sweepRowX exampleConfig Map.empty (0, 0, 0) [0, 0, 0, 0, 7, 0, 0, 0] 1 0
        (adjacentX, exampleState) =
        (case foldE (\<lambda>x. cellStep exampleConfig Map.empty (0, 0, 0) [0, 0, 0, 0, 7, 0, 0, 0]
                             (int x) (int 1) (int 0)
                             (1 * chunkSize exampleConfig +
                              0 * chunkSize exampleConfig * chunkSize exampleConfig + x))
                [0..<chunkSize exampleConfig] (resetFaces adjacentX, exampleState) of
           Inl e \<Rightarrow> Inl e
         | Inr (adj', s') \<Rightarrow>
             (case addFaces exampleConfig (0, 0, 0) adj' s' of
                Inl e \<Rightarrow> Inl e
              | Inr s'' \<Rightarrow> Inr (resetFaces adj', s'')))"
      unfolding sweepRowX_def Let_def prod.case ..
    show ?thesis
      unfolding unf cs u resetFaces_adjacent
      by (simp only: foldE.simps s0 s1 sum.case prod.case n0 resetFaces_adjacent)
  qed
  have ra: "adjacentX = map (\<lambda>f. (f, None)) [Front, Back, Top, Bottom]"
    by (simp add: adjacentX_def)
  have free: "\<forall>f \<in> set [Front, Back, Top, Bottom].
      \<not> isFaceBlocked exampleConfig Map.empty (0, 0, 0) [0, 0, 7, 0, 0, 0, 0, 0]
           (chunkSize exampleConfig) f 0 1 0 (js_index [2, 4, 4, 4, 4, 1] (faceIndex f))"
    by (simp add: cs js_index_def isFaceBlocked_def opposing_def outsideChunk_def
        exampleConfig_def shouldSkipFace_def js_eq_def)
  have r2: "js_index [0, 0, 7, 0, 0, 0, 0, 0] 2 = Some (7::nat)"
    and r3: "js_index [0, 0, 7, 0, 0, 0, 0, 0] 3 = Some (0::nat)"
    by (simp_all add: js_index_def)
  have v: "(7::nat) \<noteq> 0" by simp
  have step0: "cellStep exampleConfig Map.empty (0, 0, 0) [0, 0, 7, 0, 0, 0, 0, 0] 0 1 0 2
      (adjacentX, exampleState) = Inr (?R, exampleState)"
    unfolding ra cellStep_material[OF r2 v]
    by (rule facesLoop_start[OF exampleMaterial free])
  have ok: "runsOK exampleConfig ?R"
    using exampleOffsets by (simp add: runsOK_def runOK_def mergedRuns_def mergedRun_def)
  from addFaces_vertexCount[OF ok, of "(0, 0, 0)" exampleState] obtain s' where
    f: "addFaces exampleConfig (0, 0, 0) ?R exampleState = Inr s'"
    and c: "vertexCount (out s') = 24"
    by (auto simp: mergedRuns_def exampleState_def vertexCount_def)
  have rR: "resetFaces ?R = adjacentX"
    by (simp add: resetFaces_def mergedRuns_def adjacentX_def)
  have step1: "cellStep exampleConfig Map.empty (0, 0, 0) [0, 0, 7, 0, 0, 0, 0, 0] 1 1 0 3
      (?R, exampleState) = Inr (adjacentX, s')"
    unfolding cellStep_empty[OF r3] f rR by simp
  have n: "addFaces exampleConfig (0, 0, 0) adjacentX s' = Inr s'"
    by (simp add: adjacentX_def)
  have B: "sweepRowX exampleConfig Map.empty (0, 0, 0) [0, 0, 7, 0, 0, 0, 0, 0] 1 0
     (adjacentX, exampleState) = Inr (adjacentX, s')"
  proof -
    have step0': "cellStep exampleConfig Map.empty (0, 0, 0) [0, 0, 7, 0, 0, 0, 0, 0]
        (int 0) (int 1) (int 0) (1 * 2 + 0 * 2 * 2 + 0) (adjacentX, exampleState) =
        Inr (?R, exampleState)"
      using step0 by simp
    have step1': "cellStep exampleConfig Map.empty (0, 0, 0) [0, 0, 7, 0, 0, 0, 0, 0]
        (int 1) (int 1) (int 0) (1 * 2 + 0 * 2 * 2 + 1) (?R, exampleState) =
        Inr (adjacentX, s')"
      using step1 by simp
    have unf: "sweepRowX exampleConfig Map.empty (0, 0, 0) [0, 0, 7, 0, 0, 0, 0, 0] 1 0
        (adjacentX, exampleState) =
        (case foldE (\<lambda>x. cellStep exampleConfig Map.empty (0, 0, 0) [0, 0, 7, 0, 0, 0, 0, 0]
                             (int x) (int 1) (int 0)
                             (1 * chunkSize exampleConfig +
                              0 * chunkSize exampleConfig * chunkSize exampleConfig + x))
                [0..<chunkSize exampleConfig] (resetFaces adjacentX, exampleState) of
           Inl e \<Rightarrow> Inl e
         | Inr (adj', s') \<Rightarrow>
             (case addFaces exampleConfig (0, 0, 0) adj' s' of
                Inl e \<Rightarrow> Inl e
              | Inr s'' \<Rightarrow> Inr (resetFaces adj', s'')))"
      unfolding sweepRowX_def Let_def prod.case ..
    show ?thesis
      unfolding unf cs u resetFaces_adjacent
      by (simp only: foldE.simps step0' step1' sum.case prod.case n resetFaces_adjacent)
  qed
  from A B c show ?thesis by (auto simp: js_index_def)
qed

text \<open>
  C2, amended: for every local coordinate \<open>(x, y, z)\<close>, both sweeps read the cell at
  \<open>voxels[y * chunkSize + z * chunkSize * chunkSize + x]\<close>. The sweep of a row along
  \<open>x\<close>, and of a column along \<open>z\<close>, runs the cell body once for each of its cells, in
  order, with that index; the cell body is decided by the voxel it reads there (0 flushes
  the runs, anything else is meshed); and a row or column whose voxels at these indices
  are all 0 leaves the mesh as it was.
\<close>

theorem sweep_reads_index:
  "sweepRowX cfg cache base vox y z (adj, s) =
     (case foldE (\<lambda>x. cellStep cfg cache base vox (int x) (int y) (int z)
                         (y * chunkSize cfg + z * chunkSize cfg * chunkSize cfg + x))
             [0..<chunkSize cfg] (resetFaces adj, s) of
        Inl e \<Rightarrow> Inl e
      | Inr (adj', s') \<Rightarrow>
          (case addFaces cfg base adj' s' of
             Inl e \<Rightarrow> Inl e
           | Inr s'' \<Rightarrow> Inr (resetFaces adj', s''))) \<and>
   sweepRowZ cfg cache base vox y x (adj, s) =
     (case foldE (\<lambda>z. cellStep cfg cache base vox (int x) (int y) (int z)
                         (y * chunkSize cfg + z * chunkSize cfg * chunkSize cfg + x))
             [0..<chunkSize cfg] (resetFaces adj, s) of
        Inl e \<Rightarrow> Inl e
      | Inr (adj', s') \<Rightarrow>
          (case addFaces cfg base adj' s' of
             Inl e \<Rightarrow> Inl e
           | Inr s'' \<Rightarrow> Inr (resetFaces adj', s''))) \<and>
   (js_index vox i = Some 0 \<longrightarrow>
      cellStep cfg cache base vox cx cy cz i (adj, s) =
        (case addFaces cfg base adj s of Inl e \<Rightarrow> Inl e | Inr s' \<Rightarrow> Inr (resetFaces adj, s'))) \<and>
   (js_index vox i \<noteq> Some 0 \<longrightarrow>
      cellStep cfg cache base vox cx cy cz i (adj, s) =
        facesLoop cfg cache base vox
          (case js_index vox i of
             Some n \<Rightarrow> if n \<in> dom (voxelsToTextures cfg) then n else 3
           | None \<Rightarrow> 3) cx cy cz adj s) \<and>
   ((\<forall>x < chunkSize cfg.
       js_index vox (y * chunkSize cfg + z * chunkSize cfg * chunkSize cfg + x) = Some 0) \<longrightarrow>
      sweepRowX cfg cache base vox y z (adj, s) = Inr (resetFaces adj, s)) \<and>
   ((\<forall>z < chunkSize cfg.
       js_index vox (y * chunkSize cfg + z * chunkSize cfg * chunkSize cfg + x) = Some 0) \<longrightarrow>
      sweepRowZ cfg cache base vox y x (adj, s) = Inr (resetFaces adj, s))"
proof -
  have X: "sweepRowX cfg cache base vox y z (adj, s) =
     (case foldE (\<lambda>x. cellStep cfg cache base vox (int x) (int y) (int z)
                         (y * chunkSize cfg + z * chunkSize cfg * chunkSize cfg + x))
             [0..<chunkSize cfg] (resetFaces adj, s) of
        Inl e \<Rightarrow> Inl e
      | Inr (adj', s') \<Rightarrow>
          (case addFaces cfg base adj' s' of
             Inl e \<Rightarrow> Inl e
           | Inr s'' \<Rightarrow> Inr (resetFaces adj', s'')))"
    unfolding sweepRowX_def Let_def prod.case ..
  have "y * chunkSize cfg + x + z * chunkSize cfg * chunkSize cfg =
          y * chunkSize cfg + z * chunkSize cfg * chunkSize cfg + x" for z
    by simp
  then have e: "(\<lambda>z. cellStep cfg cache base vox (int x) (int y) (int z)
                  (y * chunkSize cfg + x + z * chunkSize cfg * chunkSize cfg)) =
           (\<lambda>z. cellStep cfg cache base vox (int x) (int y) (int z)
                  (y * chunkSize cfg + z * chunkSize cfg * chunkSize cfg + x))"
    by (intro ext arg_cong[where f = "cellStep cfg cache base vox (int x) (int y) (int _)"])
  have Z: "sweepRowZ cfg cache base vox y x (adj, s) =
     (case foldE (\<lambda>z. cellStep cfg cache base vox (int x) (int y) (int z)
                         (y * chunkSize cfg + z * chunkSize cfg * chunkSize cfg + x))
             [0..<chunkSize cfg] (resetFaces adj, s) of
        Inl e \<Rightarrow> Inl e
      | Inr (adj', s') \<Rightarrow>
          (case addFaces cfg base adj' s' of
             Inl e \<Rightarrow> Inl e
           | Inr s'' \<Rightarrow> Inr (resetFaces adj', s'')))"
    unfolding sweepRowZ_def Let_def prod.case e ..
  have C0: "cellStep cfg cache base vox cx cy cz i (adj, s) =
        (case addFaces cfg base adj s of Inl e \<Rightarrow> Inl e | Inr s' \<Rightarrow> Inr (resetFaces adj, s'))"
    if "js_index vox i = Some 0"
    using that by (simp add: cellStep_def js_eq_def)
  have C1: "cellStep cfg cache base vox cx cy cz i (adj, s) =
        facesLoop cfg cache base vox
          (case js_index vox i of
             Some n \<Rightarrow> if n \<in> dom (voxelsToTextures cfg) then n else 3
           | None \<Rightarrow> 3) cx cy cz adj s"
    if "js_index vox i \<noteq> Some 0"
    using that by (auto simp: cellStep_def js_eq_def Let_def split: option.splits)
  have EX: "sweepRowX cfg cache base vox y z (adj, s) = Inr (resetFaces adj, s)"
    if h: "\<forall>x < chunkSize cfg.
       js_index vox (y * chunkSize cfg + z * chunkSize cfg * chunkSize cfg + x) = Some 0"
  proof -
    have "foldE (\<lambda>x. cellStep cfg cache base vox (int x) (int y) (int z)
                       (y * chunkSize cfg + z * chunkSize cfg * chunkSize cfg + x))
          [0..<chunkSize cfg] (resetFaces adj, s) = Inr (resetFaces adj, s)"
      using h by (intro empty_cells) simp
    then show ?thesis
      unfolding X by (simp add: addFaces_reset resetFaces_idem)
  qed
  have EZ: "sweepRowZ cfg cache base vox y x (adj, s) = Inr (resetFaces adj, s)"
    if h: "\<forall>z < chunkSize cfg.
       js_index vox (y * chunkSize cfg + z * chunkSize cfg * chunkSize cfg + x) = Some 0"
  proof -
    have "foldE (\<lambda>z. cellStep cfg cache base vox (int x) (int y) (int z)
                       (y * chunkSize cfg + z * chunkSize cfg * chunkSize cfg + x))
          [0..<chunkSize cfg] (resetFaces adj, s) = Inr (resetFaces adj, s)"
      using h by (intro empty_cells) simp
    then show ?thesis
      unfolding Z by (simp add: addFaces_reset resetFaces_idem)
  qed
  from X Z C0 C1 EX EZ show ?thesis by blast
qed

theorem sweep_reads_index_witness:
  "sweepRowX exampleConfig Map.empty (0, 0, 0) [7, 7, 0, 0, 7, 7, 0, 7] 1 0
     (adjacentX, exampleState) = Inr (adjacentX, exampleState) \<and>
   sweepRowZ exampleConfig Map.empty (0, 0, 0) [7, 7, 0, 0, 7, 7, 0, 7] 1 0
     (adjacentZ, exampleState) = Inr (adjacentZ, exampleState) \<and>
   cellStep exampleConfig Map.empty (0, 0, 0) [7, 7, 0, 0, 7, 7, 0, 7] 0 1 0 2
     (adjacentX, exampleState) = Inr (adjacentX, exampleState) \<and>
   cellStep exampleConfig Map.empty (0, 0, 0) [7, 7, 0, 0, 7, 7, 0, 7] 0 0 0 0
     (adjacentX, exampleState) =
     facesLoop exampleConfig Map.empty (0, 0, 0) [7, 7, 0, 0, 7, 7, 0, 7] 7 0 0 0 adjacentX
       exampleState"
proof -
  have cs: "chunkSize exampleConfig = 2" by (simp add: exampleConfig_def)
  have d: "7 \<in> dom (voxelsToTextures exampleConfig)" by (simp add: exampleConfig_def)
  have n: "addFaces exampleConfig (0, 0, 0) adjacentX exampleState = Inr exampleState"
    by (simp add: adjacentX_def)
  have hX: "\<forall>x < chunkSize exampleConfig.
      js_index [7, 7, 0, 0, 7, 7, 0, 7]
        (1 * chunkSize exampleConfig + 0 * chunkSize exampleConfig * chunkSize exampleConfig + x)
        = Some (0::nat)"
    unfolding cs all_less_two by (simp add: js_index_def)
  have hZ: "\<forall>z < chunkSize exampleConfig.
      js_index [7, 7, 0, 0, 7, 7, 0, 7]
        (1 * chunkSize exampleConfig + z * chunkSize exampleConfig * chunkSize exampleConfig + 0)
        = Some (0::nat)"
    unfolding cs all_less_two by (simp add: js_index_def)
  have e: "js_index [7, 7, 0, 0, 7, 7, 0, 7] 2 = Some (0::nat)"
    and ne: "js_index [7, 7, 0, 0, 7, 7, 0, 7] 0 \<noteq> Some (0::nat)"
    by (simp_all add: js_index_def)
  note t = sweep_reads_index [where cfg = exampleConfig and cache = Map.empty and base = "(0, 0, 0)"
      and vox = "[7, 7, 0, 0, 7, 7, 0, 7]" and s = exampleState]
  from t [where adj = adjacentX and y = 1 and z = 0, THEN conjunct2, THEN conjunct2,
      THEN conjunct2, THEN conjunct2, THEN conjunct1, THEN mp, OF hX]
  have X: "sweepRowX exampleConfig Map.empty (0, 0, 0) [7, 7, 0, 0, 7, 7, 0, 7] 1 0
     (adjacentX, exampleState) = Inr (adjacentX, exampleState)"
    by (simp add: resetFaces_adjacent)
  from t [where adj = adjacentZ and y = 1 and x = 0, THEN conjunct2, THEN conjunct2,
      THEN conjunct2, THEN conjunct2, THEN conjunct2, THEN mp, OF hZ]
  have Z: "sweepRowZ exampleConfig Map.empty (0, 0, 0) [7, 7, 0, 0, 7, 7, 0, 7] 1 0
     (adjacentZ, exampleState) = Inr (adjacentZ, exampleState)"
    by (simp add: resetFaces_adjacent)
  from t [where adj = adjacentX and i = 2 and cx = 0 and cy = 1 and cz = 0, THEN conjunct2,
      THEN conjunct2, THEN conjunct1, THEN mp, OF e]
  have C0: "cellStep exampleConfig Map.empty (0, 0, 0) [7, 7, 0, 0, 7, 7, 0, 7] 0 1 0 2
     (adjacentX, exampleState) = Inr (adjacentX, exampleState)"
    by (simp add: n resetFaces_adjacent)
  from t [where adj = adjacentX and i = 0 and cx = 0 and cy = 0 and cz = 0, THEN conjunct2,
      THEN conjunct2, THEN conjunct2, THEN conjunct1, THEN mp, OF ne]
  have C1: "cellStep exampleConfig Map.empty (0, 0, 0) [7, 7, 0, 0, 7, 7, 0, 7] 0 0 0 0
     (adjacentX, exampleState) =
     facesLoop exampleConfig Map.empty (0, 0, 0) [7, 7, 0, 0, 7, 7, 0, 7] 7 0 0 0 adjacentX
       exampleState"
    by (simp add: js_index_def d)
  from X Z C0 C1 show ?thesis by (intro conjI)
qed

section \<open>Determinism of \<open>mesh\<close>\<close>

lemma take_Suc_update:
  "take (Suc n) (xs[n := v]) = (if n < length xs then take n xs @ [v] else take n xs)"
proof (cases "n < length xs")
  case True
  then show ?thesis by (simp add: take_Suc_conv_app_nth)
next
  case False
  then have "xs[n := v] = xs" by (intro list_update_beyond) simp
  with False show ?thesis by simp
qed

lemma sameBuffer_push: "sameBuffer a b \<Longrightarrow> sameBuffer (push rnd a v) (push rnd b v)"
  by (auto simp: sameBuffer_def push_def take_Suc_update)

lemma sameBuffer_pushAll: "sameBuffer a b \<Longrightarrow> sameBuffer (pushAll rnd vs a) (pushAll rnd vs b)"
  unfolding pushAll_def
  by (induction vs arbitrary: a b) (auto simp: sameBuffer_push)

lemma sameGeometry_keys: "sameGeometry o1 o2 \<Longrightarrow> map fst o1 = map fst o2"
  unfolding sameGeometry_def
  by (induction rule: list_all2_induct) auto

lemma sameGeometry_lookup:
  "sameGeometry o1 o2 \<Longrightarrow> rel_option sameTexture (map_of o1 t) (map_of o2 t)"
  unfolding sameGeometry_def
  by (induction rule: list_all2_induct) auto

lemma sameGeometry_update:
  "sameGeometry o1 o2 \<Longrightarrow> sameTexture m1 m2 \<Longrightarrow>
   sameGeometry (AList.update t m1 o1) (AList.update t m2 o2)"
  unfolding sameGeometry_def
  by (induction rule: list_all2_induct) auto

lemma sameState_allocate:
  assumes len: "\<forall>p. length (fst (malloc cfg p)) = n" and s: "sameState s1 s2"
  shows "sameState (allocate cfg t s1) (allocate cfg t s2)"
proof -
  have k: "fst ` set (out s1) = fst ` set (out s2)"
    using sameGeometry_keys[OF s[unfolded sameState_def]] by (metis list.set_map)
  have nb: "\<And>p q. sameBuffer (fst (newBuffer cfg p)) (fst (newBuffer cfg q))"
    using len by (simp add: newBuffer_def sameBuffer_def split_beta)
  show ?thesis
    using s k nb
    by (auto simp: allocate_def sameState_def sameGeometry_def sameTexture_def split_beta Let_def
        intro!: list_all2_appendI)
qed

lemma sameState_addFace:
  assumes len: "\<forall>p. length (fst (malloc cfg p)) = n" and s: "sameState s1 s2"
  shows "rel_sum (=) sameState (addFace cfg basePosition f info s1) (addFace cfg basePosition f info s2)"
proof -
  let ?t = "textureValue info"
  have a: "sameState (allocate cfg ?t s1) (allocate cfg ?t s2)"
    by (rule sameState_allocate[OF len s])
  then have g: "sameGeometry (out (allocate cfg ?t s1)) (out (allocate cfg ?t s2))"
    by (simp add: sameState_def)
  note l = sameGeometry_lookup[OF g, of ?t]
  show ?thesis
  proof (cases "map_of (out (allocate cfg ?t s1)) ?t")
    case None
    with l have "map_of (out (allocate cfg ?t s2)) ?t = None" by (auto elim: option.rel_cases)
    with None show ?thesis by (simp add: addFace_def split_beta Let_def)
  next
    case (Some m1)
    with l obtain m2 where m2: "map_of (out (allocate cfg ?t s2)) ?t = Some m2" and st: "sameTexture m1 m2"
      by (auto elim: option.rel_cases)
    show ?thesis
      using Some m2 st g
      by (auto simp: addFace_def split_beta Let_def sameState_def sameTexture_def
          intro!: sameGeometry_update sameBuffer_pushAll split: option.splits)
  qed
qed


lemma rel_sum_eqE [consumes 1, case_names Inl Inr]:
  assumes "rel_sum (=) R a b"
    and "\<And>e. a = Inl e \<Longrightarrow> b = Inl e \<Longrightarrow> P"
    and "\<And>x y. a = Inr x \<Longrightarrow> b = Inr y \<Longrightarrow> R x y \<Longrightarrow> P"
  shows P
  using assms by (auto elim!: rel_sum.cases)

lemma sameState_addFaces:
  assumes len: "\<forall>p. length (fst (malloc cfg p)) = n"
  shows "sameState s1 s2 \<Longrightarrow>
         rel_sum (=) sameState (addFaces cfg basePosition adj s1) (addFaces cfg basePosition adj s2)"
proof (induction adj arbitrary: s1 s2)
  case Nil
  then show ?case by simp
next
  case (Cons fr adj)
  obtain f cur where fr: "fr = (f, cur)" by (cases fr) auto
  show ?case
  proof (cases cur)
    case None
    with Cons fr show ?thesis by simp
  next
    case (Some info)
    from sameState_addFace[OF len Cons.prems, of basePosition f info]
    show ?thesis
      using Cons.IH by (auto simp: fr Some elim!: rel_sum.cases)
  qed
qed

lemma sameState_faceStep:
  assumes len: "\<forall>p. length (fst (malloc cfg p)) = n" and s: "sameState s1 s2"
  shows "rel_sum (=) (rel_prod (=) sameState)
           (faceStep cfg cache basePosition vox v x y z fr s1)
           (faceStep cfg cache basePosition vox v x y z fr s2)"
proof -
  have af: "\<And>f r. rel_sum (=) sameState (addFace cfg basePosition f r s1) (addFace cfg basePosition f r s2)"
    by (rule sameState_addFace[OF len s])
  show ?thesis
    using s af[of "fst fr" "the (snd fr)"]
    by (auto simp: faceStep_def split_beta Let_def split: option.splits elim!: rel_sum.cases)
qed

lemma sameState_facesLoop:
  assumes len: "\<forall>p. length (fst (malloc cfg p)) = n"
  shows "sameState s1 s2 \<Longrightarrow>
         rel_sum (=) (rel_prod (=) sameState)
           (facesLoop cfg cache basePosition vox v x y z adj s1)
           (facesLoop cfg cache basePosition vox v x y z adj s2)"
proof (induction adj arbitrary: s1 s2)
  case Nil
  then show ?case by simp
next
  case (Cons fr adj)
  from sameState_faceStep[OF len Cons.prems, of cache basePosition vox v x y z fr]
  show ?case
  proof (cases rule: rel_sum_eqE)
    case (Inl e)
    then show ?thesis by simp
  next
    case (Inr a b)
    obtain fr1 t1 where a: "a = (fr1, t1)" by (cases a) auto
    obtain fr2 t2 where b: "b = (fr2, t2)" by (cases b) auto
    from Inr a b have eq: "fr1 = fr2" and t: "sameState t1 t2" by auto
    from Cons.IH[OF t] show ?thesis
      using Inr a b eq by (auto elim!: rel_sum.cases)
  qed
qed

lemma sameState_foldE:
  assumes step: "\<And>x a b. R a b \<Longrightarrow> rel_sum (=) R (body x a) (body x b)"
  shows "R a b \<Longrightarrow> rel_sum (=) R (foldE body xs a) (foldE body xs b)"
proof (induction xs arbitrary: a b)
  case Nil
  then show ?case by simp
next
  case (Cons x xs)
  from step[OF Cons.prems, of x] show ?case
    using Cons.IH by (auto elim!: rel_sum.cases)
qed

lemma sameState_cellStep:
  assumes len: "\<forall>p. length (fst (malloc cfg p)) = n" and s: "rel_prod (=) sameState a b"
  shows "rel_sum (=) (rel_prod (=) sameState)
           (cellStep cfg cache basePosition vox x y z i a)
           (cellStep cfg cache basePosition vox x y z i b)"
proof -
  obtain adj s1 where a: "a = (adj, s1)" by (cases a) auto
  obtain adj2 s2 where b: "b = (adj2, s2)" by (cases b) auto
  from s a b have adj: "adj2 = adj" and st: "sameState s1 s2" by auto
  show ?thesis
    using sameState_addFaces[OF len st, of basePosition adj]
      sameState_facesLoop[OF len st]
    by (auto simp: cellStep_def a b adj Let_def elim!: rel_sum.cases)
qed

lemma sameState_row:
  assumes len: "\<forall>p. length (fst (malloc cfg p)) = n" and s: "rel_prod (=) sameState a b"
  shows "rel_sum (=) (rel_prod (=) sameState)
           (sweepRowX cfg cache basePosition vox y z a) (sweepRowX cfg cache basePosition vox y z b)"
    and "rel_sum (=) (rel_prod (=) sameState)
           (sweepRowZ cfg cache basePosition vox y x a) (sweepRowZ cfg cache basePosition vox y x b)"
proof -
  obtain adj s1 where a: "a = (adj, s1)" by (cases a) auto
  obtain adj2 s2 where b: "b = (adj2, s2)" by (cases b) auto
  from s a b have adj: "adj2 = adj" and st: "sameState s1 s2" by auto
  have start: "rel_prod (=) sameState (resetFaces adj, s1) (resetFaces adj, s2)"
    using st by simp
  have flush: "\<And>c d. rel_prod (=) sameState c d \<Longrightarrow>
      rel_sum (=) (rel_prod (=) sameState)
        (case addFaces cfg basePosition (fst c) (snd c) of Inl e \<Rightarrow> Inl e
         | Inr s'' \<Rightarrow> Inr (resetFaces (fst c), s''))
        (case addFaces cfg basePosition (fst d) (snd d) of Inl e \<Rightarrow> Inl e
         | Inr s'' \<Rightarrow> Inr (resetFaces (fst d), s''))"
  proof -
    fix c d :: "adjacent \<times> 'a mstate"
    assume r: "rel_prod (=) sameState c d"
    then have e: "fst d = fst c" and t: "sameState (snd c) (snd d)"
      by (auto simp: rel_prod_sel)
    from sameState_addFaces[OF len t, of basePosition "fst c"] show
      "rel_sum (=) (rel_prod (=) sameState)
        (case addFaces cfg basePosition (fst c) (snd c) of Inl e \<Rightarrow> Inl e
         | Inr s'' \<Rightarrow> Inr (resetFaces (fst c), s''))
        (case addFaces cfg basePosition (fst d) (snd d) of Inl e \<Rightarrow> Inl e
         | Inr s'' \<Rightarrow> Inr (resetFaces (fst d), s''))"
      by (auto simp: e elim!: rel_sum.cases)
  qed
  have loopX: "rel_sum (=) (rel_prod (=) sameState)
      (foldE (\<lambda>x. cellStep cfg cache basePosition vox (int x) (int y) (int z)
                         (y * chunkSize cfg + z * chunkSize cfg * chunkSize cfg + x)) [0..<chunkSize cfg] (resetFaces adj, s1))
      (foldE (\<lambda>x. cellStep cfg cache basePosition vox (int x) (int y) (int z)
                         (y * chunkSize cfg + z * chunkSize cfg * chunkSize cfg + x)) [0..<chunkSize cfg] (resetFaces adj, s2))"
    by (rule sameState_foldE[where R = "rel_prod (=) sameState", OF _ start])
      (rule sameState_cellStep[OF len])
  have loopZ: "rel_sum (=) (rel_prod (=) sameState)
      (foldE (\<lambda>z. cellStep cfg cache basePosition vox (int x) (int y) (int z)
                         (y * chunkSize cfg + z * chunkSize cfg * chunkSize cfg + x)) [0..<chunkSize cfg] (resetFaces adj, s1))
      (foldE (\<lambda>z. cellStep cfg cache basePosition vox (int x) (int y) (int z)
                         (y * chunkSize cfg + z * chunkSize cfg * chunkSize cfg + x)) [0..<chunkSize cfg] (resetFaces adj, s2))"
    by (rule sameState_foldE[where R = "rel_prod (=) sameState", OF _ start])
      (rule sameState_cellStep[OF len])
  show "rel_sum (=) (rel_prod (=) sameState)
           (sweepRowX cfg cache basePosition vox y z a) (sweepRowX cfg cache basePosition vox y z b)"
    using loopX
  proof (cases rule: rel_sum_eqE)
    case (Inl e)
    then show ?thesis by (simp add: sweepRowX_unfold a b adj)
  next
    case (Inr c d)
    from flush[OF Inr(3)] show ?thesis
      using Inr(1,2) by (simp add: sweepRowX_unfold a b adj split_beta)
  qed
  show "rel_sum (=) (rel_prod (=) sameState)
           (sweepRowZ cfg cache basePosition vox y x a) (sweepRowZ cfg cache basePosition vox y x b)"
    using loopZ
  proof (cases rule: rel_sum_eqE)
    case (Inl e)
    then show ?thesis by (simp add: sweepRowZ_unfold a b adj)
  next
    case (Inr c d)
    from flush[OF Inr(3)] show ?thesis
      using Inr(1,2) by (simp add: sweepRowZ_unfold a b adj split_beta)
  qed
qed

lemma sameState_slice:
  assumes len: "\<forall>p. length (fst (malloc cfg p)) = n" and s: "sameState s1 s2"
  shows "rel_sum (=) sameState (slice cfg cache basePosition vox y s1) (slice cfg cache basePosition vox y s2)"
proof -
  have "rel_sum (=) (rel_prod (=) sameState)
      (foldE (sweepRowX cfg cache basePosition vox y) [0..<chunkSize cfg] (adjacentX, s1))
      (foldE (sweepRowX cfg cache basePosition vox y) [0..<chunkSize cfg] (adjacentX, s2))"
    by (rule sameState_foldE[where R = "rel_prod (=) sameState"])
      (use s in \<open>auto intro: sameState_row(1)[OF len]\<close>)
  then show ?thesis
  proof (cases rule: rel_sum_eqE)
    case (Inl e)
    then show ?thesis by (simp add: slice_def)
  next
    case (Inr c d)
    then have t: "sameState (snd c) (snd d)" by (auto simp: rel_prod_sel)
    have "rel_sum (=) (rel_prod (=) sameState)
      (foldE (sweepRowZ cfg cache basePosition vox y) [0..<chunkSize cfg] (adjacentZ, snd c))
      (foldE (sweepRowZ cfg cache basePosition vox y) [0..<chunkSize cfg] (adjacentZ, snd d))"
      by (rule sameState_foldE[where R = "rel_prod (=) sameState"])
        (use t in \<open>auto intro: sameState_row(2)[OF len]\<close>)
    then show ?thesis
      using Inr(1,2) by (auto simp: slice_def split_beta elim!: rel_sum.cases)
  qed
qed

lemma sameState_calculate:
  assumes len: "\<forall>p. length (fst (malloc cfg p)) = n" and s: "sameState s1 s2"
  shows "rel_sum (=) sameState (calculate cfg cache basePosition vox s1)
           (calculate cfg cache basePosition vox s2)"
  unfolding calculate_def
  by (rule sameState_foldE[where R = sameState, OF _ s]) (rule sameState_slice[OF len])

text \<open>
  C9: two calls of \<open>mesh\<close> with the same position, voxels and chunk cache have the same
  result, whatever the module's state before each call (the \<open>out\<close> left by an earlier call,
  the arrays the pool hands out and what they hold): the same texture keys, and for each
  the same offsets and the same floats below the offset in the three buffers. The pool's
  arrays have one capacity \<open>n\<close>.
\<close>

theorem mesh_deterministic:
  assumes "\<forall>p. length (fst (malloc cfg p)) = n"
  shows "sameResult (mesh cfg cache pos voxs s1) (mesh cfg cache pos voxs s2)"
proof -
  have r: "sameState (s1\<lparr>out := []\<rparr>) (s2\<lparr>out := []\<rparr>)"
    by (simp add: sameState_def sameGeometry_def)
  show ?thesis
  proof (cases voxs)
    case None
    then show ?thesis by (simp add: mesh_def sameResult_def)
  next
    case (Some vox)
    from sameState_calculate[OF assms r, of cache pos vox] show ?thesis
      by (cases rule: rel_sum_eqE) (simp_all add: mesh_def sameResult_def sameState_def Some)
  qed
qed

theorem mesh_deterministic_witness:
  "sameResult
     (mesh exampleConfig Map.empty (0, 0, 0) (Some [7, 0, 0, 0, 0, 0, 0, 0]) exampleState)
     (mesh exampleConfig Map.empty (0, 0, 0) (Some [7, 0, 0, 0, 0, 0, 0, 0]) staleState)"
  using mesh_deterministic [of exampleConfig 200 Map.empty "(0, 0, 0)"
      "Some [7, 0, 0, 0, 0, 0, 0, 0]" exampleState staleState]
  by (simp add: exampleConfig_def)

end
